theory Spec2Isabelle
  imports Complex_Main "HOL-Library.Word" "HOL-Library.Multiset"
begin

unbundle bit_operations_syntax

section \<open>The converter's output record and the YAML document\<close>

text \<open>
  From the Sbagen converter (\<open>cmd/converter/main.go\<close> in the README's project
  structure): the record that \<open>convertToFrequencyChanges\<close> builds and \<open>main\<close> marshals.
  It has five fields; there is no \<open>pink_noise_on\<close>.
\<close>

record FrequencyChange =
  Time :: real
  Frequency :: real
  BeatFrequency :: real
  PinkNoiseVolume :: real
  ToneVolume :: real

text \<open>
  The YAML library is not part of the repository. A mapping node is modelled as the list
  of its keys and scalar values; \<open>yaml.Marshal\<close> of a struct writes one entry per field
  under the key of the field's \<open>yaml:"..."\<close> tag, in field order.
\<close>

datatype yaml_scalar = YFloat real | YBool bool

type_synonym yaml_mapping = "(string \<times> yaml_scalar) list"

definition marshalFrequencyChange :: "FrequencyChange \<Rightarrow> yaml_mapping" where
  "marshalFrequencyChange fc =
     [(''time'', YFloat (Time fc)),
      (''frequency'', YFloat (Frequency fc)),
      (''beat_frequency'', YFloat (BeatFrequency fc)),
      (''pink_noise_volume'', YFloat (PinkNoiseVolume fc)),
      (''tone_volume'', YFloat (ToneVolume fc))]"

text \<open>\<open>Config{FrequencyChanges: frequencyChanges}\<close> marshals to the sequence of these mappings.\<close>

definition marshalConfig :: "FrequencyChange list \<Rightarrow> yaml_mapping list" where
  "marshalConfig frequencyChanges = map marshalFrequencyChange frequencyChanges"

section \<open>Data model of the player (cmd/binaural-beats/main.go)\<close>

text \<open>
  Go's \<open>float64\<close> is idealised as \<open>real\<close>: rounding, infinities and NaN are outside the
  model. The two run-time events that would leave this idealisation are written out as
  values of \<open>fault\<close>: an index outside a slice (a Go panic) and a floating-point
  division whose divisor is zero (Go yields an infinity or NaN, no real number).
\<close>

datatype fault = IndexOutOfRange | DivisionByZero

record ConfigFrequencyChange =
  Time :: real
  Frequency :: real
  BeatFrequency :: real
  PinkNoiseOn :: bool
  PinkNoiseVolume :: real
  ToneVolume :: real

definition index :: "'a list \<Rightarrow> nat \<Rightarrow> fault + 'a" where
  "index xs i = (if i < length xs then Inr (xs ! i) else Inl IndexOutOfRange)"

definition fdiv :: "real \<Rightarrow> real \<Rightarrow> fault + real" where
  "fdiv x y = (if y = 0 then Inl DivisionByZero else Inr (x / y))"

section \<open>Schedule query functions\<close>

text \<open>
  Each \<open>createXFunc\<close> returns a closure over \<open>changes\<close>; the closure applied to \<open>t\<close> is
  the function below applied to \<open>changes\<close> and \<open>t\<close>. The \<open>for\<close> loop of each closure is
  the function with suffix \<open>_loop\<close>, started at \<open>i = 0\<close>; a \<open>return\<close> inside the loop
  is the branch that does not recurse.
\<close>

function createFreqFunc_loop :: "ConfigFrequencyChange list \<Rightarrow> real \<Rightarrow> nat \<Rightarrow> fault + real" where
  "createFreqFunc_loop changes t i =
     (if i < length changes - 1 then
        (case index changes i of Inl e \<Rightarrow> Inl e | Inr ci \<Rightarrow>
        (case index changes (i + 1) of Inl e \<Rightarrow> Inl e | Inr cj \<Rightarrow>
           if t \<ge> Time ci \<and> t < Time cj then
             (let t1 = Time ci; t2 = Time cj; f1 = Frequency ci; f2 = Frequency cj
              in (case fdiv ((f2 - f1) * (t - t1)) (t2 - t1) of
                    Inl e \<Rightarrow> Inl e | Inr q \<Rightarrow> Inr (f1 + q)))
           else createFreqFunc_loop changes t (i + 1)))
      else (case index changes (length changes - 1) of
              Inl e \<Rightarrow> Inl e | Inr cl \<Rightarrow> Inr (Frequency cl)))"
  by pat_completeness auto
termination
  by (relation "measure (\<lambda>(changes, t, i). length changes - i)") auto

declare createFreqFunc_loop.simps [simp del]

definition createFreqFunc :: "ConfigFrequencyChange list \<Rightarrow> real \<Rightarrow> fault + real" where
  "createFreqFunc changes t =
     (if length changes = 0 then Inr 0
      else (case index changes 0 of Inl e \<Rightarrow> Inl e | Inr c0 \<Rightarrow>
        if t \<le> Time c0 then Inr (Frequency c0)
        else (case index changes (length changes - 1) of Inl e \<Rightarrow> Inl e | Inr cl \<Rightarrow>
          if t \<ge> Time cl then Inr (Frequency cl)
          else createFreqFunc_loop changes t 0)))"

function createBeatFreqFunc_loop :: "ConfigFrequencyChange list \<Rightarrow> real \<Rightarrow> nat \<Rightarrow> fault + real" where
  "createBeatFreqFunc_loop changes t i =
     (if i < length changes - 1 then
        (case index changes i of Inl e \<Rightarrow> Inl e | Inr ci \<Rightarrow>
        (case index changes (i + 1) of Inl e \<Rightarrow> Inl e | Inr cj \<Rightarrow>
           if t \<ge> Time ci \<and> t < Time cj then
             (let t1 = Time ci; t2 = Time cj; bf1 = BeatFrequency ci; bf2 = BeatFrequency cj
              in (case fdiv ((bf2 - bf1) * (t - t1)) (t2 - t1) of
                    Inl e \<Rightarrow> Inl e | Inr q \<Rightarrow> Inr (bf1 + q)))
           else createBeatFreqFunc_loop changes t (i + 1)))
      else (case index changes (length changes - 1) of
              Inl e \<Rightarrow> Inl e | Inr cl \<Rightarrow> Inr (BeatFrequency cl)))"
  by pat_completeness auto
termination
  by (relation "measure (\<lambda>(changes, t, i). length changes - i)") auto

declare createBeatFreqFunc_loop.simps [simp del]

definition createBeatFreqFunc :: "ConfigFrequencyChange list \<Rightarrow> real \<Rightarrow> fault + real" where
  "createBeatFreqFunc changes t =
     (if length changes = 0 then Inr 0
      else (case index changes 0 of Inl e \<Rightarrow> Inl e | Inr c0 \<Rightarrow>
        if t \<le> Time c0 then Inr (BeatFrequency c0)
        else (case index changes (length changes - 1) of Inl e \<Rightarrow> Inl e | Inr cl \<Rightarrow>
          if t \<ge> Time cl then Inr (BeatFrequency cl)
          else createBeatFreqFunc_loop changes t 0)))"

function createVolumeFunc_loop :: "ConfigFrequencyChange list \<Rightarrow> real \<Rightarrow> nat \<Rightarrow> fault + real" where
  "createVolumeFunc_loop changes t i =
     (if i < length changes - 1 then
        (case index changes i of Inl e \<Rightarrow> Inl e | Inr ci \<Rightarrow>
        (case index changes (i + 1) of Inl e \<Rightarrow> Inl e | Inr cj \<Rightarrow>
           if t \<ge> Time ci \<and> t < Time cj then
             (let t1 = Time ci; t2 = Time cj; v1 = ToneVolume ci; v2 = ToneVolume cj
              in (case fdiv ((v2 - v1) * (t - t1)) (t2 - t1) of
                    Inl e \<Rightarrow> Inl e | Inr q \<Rightarrow> Inr (v1 + q)))
           else createVolumeFunc_loop changes t (i + 1)))
      else (case index changes (length changes - 1) of
              Inl e \<Rightarrow> Inl e | Inr cl \<Rightarrow> Inr (ToneVolume cl)))"
  by pat_completeness auto
termination
  by (relation "measure (\<lambda>(changes, t, i). length changes - i)") auto

declare createVolumeFunc_loop.simps [simp del]

definition createVolumeFunc :: "ConfigFrequencyChange list \<Rightarrow> real \<Rightarrow> fault + real" where
  "createVolumeFunc changes t =
     (if length changes = 0 then Inr 1
      else (case index changes 0 of Inl e \<Rightarrow> Inl e | Inr c0 \<Rightarrow>
        if t \<le> Time c0 then Inr (ToneVolume c0)
        else (case index changes (length changes - 1) of Inl e \<Rightarrow> Inl e | Inr cl \<Rightarrow>
          if t \<ge> Time cl then Inr (ToneVolume cl)
          else createVolumeFunc_loop changes t 0)))"

text \<open>The noise closure returns the pair \<open>(on, vol)\<close> and steps instead of interpolating.\<close>

function createPinkNoiseFunc_loop :: "ConfigFrequencyChange list \<Rightarrow> real \<Rightarrow> nat \<Rightarrow> fault + (bool \<times> real)" where
  "createPinkNoiseFunc_loop changes t i =
     (if i < length changes - 1 then
        (case index changes i of Inl e \<Rightarrow> Inl e | Inr ci \<Rightarrow>
        (case index changes (i + 1) of Inl e \<Rightarrow> Inl e | Inr cj \<Rightarrow>
           if t \<ge> Time ci \<and> t < Time cj then Inr (PinkNoiseOn ci, PinkNoiseVolume ci)
           else createPinkNoiseFunc_loop changes t (i + 1)))
      else (case index changes (length changes - 1) of
              Inl e \<Rightarrow> Inl e | Inr cl \<Rightarrow> Inr (PinkNoiseOn cl, PinkNoiseVolume cl)))"
  by pat_completeness auto
termination
  by (relation "measure (\<lambda>(changes, t, i). length changes - i)") auto

declare createPinkNoiseFunc_loop.simps [simp del]

definition createPinkNoiseFunc :: "ConfigFrequencyChange list \<Rightarrow> real \<Rightarrow> fault + (bool \<times> real)" where
  "createPinkNoiseFunc changes t =
     (if length changes = 0 then Inr (False, 0)
      else (case index changes 0 of Inl e \<Rightarrow> Inl e | Inr c0 \<Rightarrow>
        if t \<le> Time c0 then Inr (PinkNoiseOn c0, PinkNoiseVolume c0)
        else (case index changes (length changes - 1) of Inl e \<Rightarrow> Inl e | Inr cl \<Rightarrow>
          if t \<ge> Time cl then Inr (PinkNoiseOn cl, PinkNoiseVolume cl)
          else createPinkNoiseFunc_loop changes t 0)))"

text \<open>
  The four closures share one shape: clamp at the first breakpoint, clamp at the last,
  then scan the intervals in index order. \<open>scan\<close> is that shape with the value computed
  in the interval (\<open>hit\<close>) and the value read at a single breakpoint (\<open>fld\<close>) as
  parameters; it is a proof device, shown equal to each closure below.
\<close>

definition lerp :: "(ConfigFrequencyChange \<Rightarrow> real) \<Rightarrow> ConfigFrequencyChange \<Rightarrow> ConfigFrequencyChange \<Rightarrow> real \<Rightarrow> fault + real" where
  "lerp fld ci cj t =
     (case fdiv ((fld cj - fld ci) * (t - Time ci)) (Time cj - Time ci) of
        Inl e \<Rightarrow> Inl e | Inr q \<Rightarrow> Inr (fld ci + q))"

definition step :: "ConfigFrequencyChange \<Rightarrow> ConfigFrequencyChange \<Rightarrow> real \<Rightarrow> fault + (bool \<times> real)" where
  "step ci cj t = Inr (PinkNoiseOn ci, PinkNoiseVolume ci)"

definition noisePair :: "ConfigFrequencyChange \<Rightarrow> bool \<times> real" where
  "noisePair c = (PinkNoiseOn c, PinkNoiseVolume c)"

function scan_loop :: "(ConfigFrequencyChange \<Rightarrow> ConfigFrequencyChange \<Rightarrow> real \<Rightarrow> fault + 'a) \<Rightarrow>
    (ConfigFrequencyChange \<Rightarrow> 'a) \<Rightarrow> ConfigFrequencyChange list \<Rightarrow> real \<Rightarrow> nat \<Rightarrow> fault + 'a" where
  "scan_loop hit fld changes t i =
     (if i < length changes - 1 then
        (if t \<ge> Time (changes ! i) \<and> t < Time (changes ! (i + 1))
         then hit (changes ! i) (changes ! (i + 1)) t
         else scan_loop hit fld changes t (i + 1))
      else Inr (fld (changes ! (length changes - 1))))"
  by pat_completeness auto
termination
  by (relation "measure (\<lambda>(hit, fld, changes, t, i). length changes - i)") auto

declare scan_loop.simps [simp del]

definition scan :: "(ConfigFrequencyChange \<Rightarrow> ConfigFrequencyChange \<Rightarrow> real \<Rightarrow> fault + 'a) \<Rightarrow>
    (ConfigFrequencyChange \<Rightarrow> 'a) \<Rightarrow> 'a \<Rightarrow> ConfigFrequencyChange list \<Rightarrow> real \<Rightarrow> fault + 'a" where
  "scan hit fld dflt changes t =
     (if changes = [] then Inr dflt
      else if t \<le> Time (changes ! 0) then Inr (fld (changes ! 0))
      else if t \<ge> Time (changes ! (length changes - 1)) then Inr (fld (changes ! (length changes - 1)))
      else scan_loop hit fld changes t 0)"

text \<open>Breakpoint times in non-decreasing and in strictly increasing order.\<close>

definition nondecreasing :: "ConfigFrequencyChange list \<Rightarrow> bool" where
  "nondecreasing changes = sorted (map Time changes)"

definition increasing :: "ConfigFrequencyChange list \<Rightarrow> bool" where
  "increasing changes = sorted_wrt (<) (map Time changes)"

section \<open>Loading the configuration (parseConfig)\<close>

text \<open>
  \<open>yaml.Unmarshal\<close> into a struct sets each field from the entry under the field's tag
  and leaves a field whose key is absent at its zero value (\<open>0\<close>, \<open>false\<close>); a scalar of
  the wrong kind is a decoding error, which \<open>main\<close> reports with \<open>log.Fatalf\<close>.
\<close>

datatype abort = ConfigError | ZeroPlaybackTime | Panic fault

definition floatField :: "yaml_mapping \<Rightarrow> string \<Rightarrow> abort + real" where
  "floatField m k = (case map_of m k of None \<Rightarrow> Inr 0 | Some (YFloat x) \<Rightarrow> Inr x | Some (YBool b) \<Rightarrow> Inl ConfigError)"

definition boolField :: "yaml_mapping \<Rightarrow> string \<Rightarrow> abort + bool" where
  "boolField m k = (case map_of m k of None \<Rightarrow> Inr False | Some (YBool b) \<Rightarrow> Inr b | Some (YFloat x) \<Rightarrow> Inl ConfigError)"

definition unmarshalConfigFrequencyChange :: "yaml_mapping \<Rightarrow> abort + ConfigFrequencyChange" where
  "unmarshalConfigFrequencyChange m =
     (case floatField m ''time'' of Inl e \<Rightarrow> Inl e | Inr tm \<Rightarrow>
     (case floatField m ''frequency'' of Inl e \<Rightarrow> Inl e | Inr f \<Rightarrow>
     (case floatField m ''beat_frequency'' of Inl e \<Rightarrow> Inl e | Inr bf \<Rightarrow>
     (case boolField m ''pink_noise_on'' of Inl e \<Rightarrow> Inl e | Inr on \<Rightarrow>
     (case floatField m ''pink_noise_volume'' of Inl e \<Rightarrow> Inl e | Inr nv \<Rightarrow>
     (case floatField m ''tone_volume'' of Inl e \<Rightarrow> Inl e | Inr tv \<Rightarrow>
        Inr \<lparr>Time = tm, Frequency = f, BeatFrequency = bf, PinkNoiseOn = on,
             PinkNoiseVolume = nv, ToneVolume = tv\<rparr>))))))"

fun unmarshalConfig :: "yaml_mapping list \<Rightarrow> abort + ConfigFrequencyChange list" where
  "unmarshalConfig [] = Inr []"
| "unmarshalConfig (m # ms) =
     (case unmarshalConfigFrequencyChange m of Inl e \<Rightarrow> Inl e | Inr c \<Rightarrow>
     (case unmarshalConfig ms of Inl e \<Rightarrow> Inl e | Inr cs \<Rightarrow> Inr (c # cs)))"

text \<open>
  \<open>parseConfig\<close> then sorts the breakpoints with \<open>sort.Slice\<close> on \<open>Time\<close>. That sort is
  not stable and its code is not in the repository: its result is some reordering of the
  list with non-decreasing times. \<open>parsedFrom\<close> relates a decoded list to every list
  \<open>parseConfig\<close> may return for it.
\<close>

definition parsedFrom :: "ConfigFrequencyChange list \<Rightarrow> ConfigFrequencyChange list \<Rightarrow> bool" where
  "parsedFrom decoded changes = (mset changes = mset decoded \<and> nondecreasing changes)"

section \<open>Total playback time and the start of main\<close>

definition getTotalPlaybackTime :: "ConfigFrequencyChange list \<Rightarrow> fault + real" where
  "getTotalPlaybackTime changes =
     (if length changes = 0 then Inr 0
      else (case index changes 0 of Inl e \<Rightarrow> Inl e | Inr c0 \<Rightarrow>
        Inr (fold (\<lambda>change maxTime. if Time change > maxTime then Time change else maxTime)
               changes (Time c0))))"

text \<open>
  \<open>main\<close> from the parsed configuration to the check of the total playback time:
  the stretch of every breakpoint time, then \<open>log.Fatalf\<close> when the total is zero.
  Everything that builds or pulls a stream comes after this check.
\<close>

definition stretchTimes :: "real \<Rightarrow> ConfigFrequencyChange list \<Rightarrow> ConfigFrequencyChange list" where
  "stretchTimes stretchFactor changes = map (\<lambda>c. c\<lparr>Time := Time c * stretchFactor\<rparr>) changes"

definition main_startup :: "real \<Rightarrow> ConfigFrequencyChange list \<Rightarrow> abort + (ConfigFrequencyChange list \<times> real)" where
  "main_startup stretchFactor cfg =
     (let changes = stretchTimes stretchFactor cfg
      in (case getTotalPlaybackTime changes of Inl e \<Rightarrow> Inl (Panic e) | Inr totalPlaybackTime \<Rightarrow>
            if totalPlaybackTime = 0 then Inl ZeroPlaybackTime
            else Inr (changes, totalPlaybackTime)))"

section \<open>Oscillator (VariableTone)\<close>

text \<open>
  A buffer \<open>[][2]float64\<close> is a list of frames \<open>(left, right)\<close>. \<open>Stream\<close> writes into
  the buffer it is handed and mutates the receiver; the model returns the buffer and the
  receiver after the call, with the \<open>(n, ok)\<close> the method returns. Go's \<open>int\<close> is
  modelled as \<open>int\<close>: the position counter would need \<open>2^63\<close> samples to wrap.
\<close>

type_synonym frame = "real \<times> real"

record VariableTone =
  sr :: int
  pos :: int
  phase :: real
  freqFunc :: "real \<Rightarrow> fault + real"
  volumeFunc :: "real \<Rightarrow> fault + real"
  channel :: int

fun VariableTone_Stream_loop :: "VariableTone \<Rightarrow> frame list \<Rightarrow> fault + (frame list \<times> VariableTone)" where
  "VariableTone_Stream_loop vt [] = Inr ([], vt)"
| "VariableTone_Stream_loop vt (smp # rest) =
     (case fdiv (of_int (VariableTone.pos vt)) (of_int (VariableTone.sr vt)) of Inl e \<Rightarrow> Inl e | Inr t \<Rightarrow>
     (case freqFunc vt t of Inl e \<Rightarrow> Inl e | Inr f \<Rightarrow>
     (case VariableTone.volumeFunc vt t of Inl e \<Rightarrow> Inl e | Inr vol \<Rightarrow>
     (case fdiv (2 * pi * f) (of_int (VariableTone.sr vt)) of Inl e \<Rightarrow> Inl e | Inr deltaPhase \<Rightarrow>
       (let vt1 = vt\<lparr>phase := phase vt + deltaPhase\<rparr>;
            s = sin (phase vt1) * vol * 0.5;
            smp1 = (if channel vt1 = 0 then (fst smp + s, snd smp) else (fst smp, snd smp + s));
            vt2 = vt1\<lparr>VariableTone.pos := VariableTone.pos vt1 + 1\<rparr>
        in (case VariableTone_Stream_loop vt2 rest of Inl e \<Rightarrow> Inl e
            | Inr (out, vt3) \<Rightarrow> Inr (smp1 # out, vt3)))))))"

definition VariableTone_Stream :: "VariableTone \<Rightarrow> frame list \<Rightarrow> fault + (frame list \<times> int \<times> bool \<times> VariableTone)" where
  "VariableTone_Stream vt samples =
     (case VariableTone_Stream_loop vt samples of Inl e \<Rightarrow> Inl e
      | Inr (out, vt1) \<Rightarrow> Inr (out, int (length samples), True, vt1))"

text \<open>The two oscillators as \<open>main\<close> builds them from the breakpoints.\<close>

definition freqFuncLeft :: "ConfigFrequencyChange list \<Rightarrow> real \<Rightarrow> fault + real" where
  "freqFuncLeft changes t = createFreqFunc changes t"

definition freqFuncRight :: "ConfigFrequencyChange list \<Rightarrow> real \<Rightarrow> fault + real" where
  "freqFuncRight changes t =
     (case createFreqFunc changes t of Inl e \<Rightarrow> Inl e | Inr base \<Rightarrow>
     (case createBeatFreqFunc changes t of Inl e \<Rightarrow> Inl e | Inr beat \<Rightarrow> Inr (base + beat)))"

definition leftTone :: "ConfigFrequencyChange list \<Rightarrow> VariableTone" where
  "leftTone changes = \<lparr>VariableTone.sr = 44100, pos = 0, phase = 0, freqFunc = freqFuncLeft changes,
     volumeFunc = createVolumeFunc changes, channel = 0\<rparr>"

definition rightTone :: "ConfigFrequencyChange list \<Rightarrow> VariableTone" where
  "rightTone changes = \<lparr>VariableTone.sr = 44100, pos = 0, phase = 0, freqFunc = freqFuncRight changes,
     volumeFunc = createVolumeFunc changes, channel = 1\<rparr>"

section \<open>Pink noise generator (PinkNoise)\<close>

text \<open>
  The random source is the sequence of values its \<open>Float64\<close> will return, in order;
  drawing one value returns it and leaves the rest. \<open>NewPinkNoise\<close> seeds the source
  from the clock, so the source is its parameter here.
\<close>

type_synonym Rand = "nat \<Rightarrow> real"

definition Float64 :: "Rand \<Rightarrow> real \<times> Rand" where
  "Float64 r = (r 0, (\<lambda>n. r (n + 1)))"

record PinkNoise =
  rand :: Rand
  maxKey :: "32 word"
  key :: "32 word"
  white :: "real list"

definition NewPinkNoise :: "Rand \<Rightarrow> PinkNoise" where
  "NewPinkNoise src = \<lparr>rand = src, maxKey = 0x1F, key = 0, white = [0, 0, 0, 0, 0]\<rparr>"

definition nextSample_redraw :: "32 word \<Rightarrow> nat \<Rightarrow> Rand \<times> real list \<Rightarrow> Rand \<times> real list" where
  "nextSample_redraw diff i st =
     (if diff AND (push_bit i 1) \<noteq> 0
      then (let (x, r) = Float64 (fst st) in (r, (snd st)[i := x * 2 - 1]))
      else st)"

definition nextSample :: "PinkNoise \<Rightarrow> real \<times> PinkNoise" where
  "nextSample pn =
     (let lastKey = key pn;
          key1 = key pn + 1;
          key2 = (if key1 > maxKey pn then 0 else key1);
          diff = lastKey XOR key2;
          (r, w) = fold (nextSample_redraw diff) [0, 1, 2, 3, 4] (rand pn, white pn);
          sum = w ! 0 + w ! 1 + w ! 2 + w ! 3 + w ! 4
      in (sum * 0.1, pn\<lparr>rand := r, key := key2, white := w\<rparr>))"

fun PinkNoise_Stream_loop :: "PinkNoise \<Rightarrow> frame list \<Rightarrow> frame list \<times> PinkNoise" where
  "PinkNoise_Stream_loop pn [] = ([], pn)"
| "PinkNoise_Stream_loop pn (smp # rest) =
     (let (sample, pn1) = nextSample pn;
          smp1 = (fst smp + sample, snd smp + sample);
          (out, pn2) = PinkNoise_Stream_loop pn1 rest
      in (smp1 # out, pn2))"

definition PinkNoise_Stream :: "PinkNoise \<Rightarrow> frame list \<Rightarrow> frame list \<times> int \<times> bool \<times> PinkNoise" where
  "PinkNoise_Stream pn samples =
     (let (out, pn1) = PinkNoise_Stream_loop pn samples in (out, int (length samples), True, pn1))"

section \<open>Noise gate (PinkNoiseControl)\<close>

text \<open>
  The field \<open>stream\<close> is a \<open>beep.Streamer\<close>; the only streamer \<open>main\<close> stores there is the
  pink noise generator, so the field holds a \<open>PinkNoise\<close>.
\<close>

record PinkNoiseControl =
  stream :: PinkNoise
  volumeFunc :: "real \<Rightarrow> fault + (bool \<times> real)"
  sr :: int
  pos :: int

fun PinkNoiseControl_Stream_loop :: "PinkNoiseControl \<Rightarrow> frame list \<Rightarrow> fault + (frame list \<times> PinkNoiseControl)" where
  "PinkNoiseControl_Stream_loop pnc [] = Inr ([], pnc)"
| "PinkNoiseControl_Stream_loop pnc (smp # rest) =
     (case fdiv (of_int (PinkNoiseControl.pos pnc)) (of_int (PinkNoiseControl.sr pnc)) of Inl e \<Rightarrow> Inl e | Inr t \<Rightarrow>
     (case PinkNoiseControl.volumeFunc pnc t of Inl e \<Rightarrow> Inl e | Inr (on, vol) \<Rightarrow>
       (let smp1 = (if \<not> on then (0, 0) else (let s = fst smp * vol * 0.5 in (s, s)));
            pnc1 = pnc\<lparr>PinkNoiseControl.pos := PinkNoiseControl.pos pnc + 1\<rparr>
        in (case PinkNoiseControl_Stream_loop pnc1 rest of Inl e \<Rightarrow> Inl e
            | Inr (out, pnc2) \<Rightarrow> Inr (smp1 # out, pnc2)))))"

definition PinkNoiseControl_Stream :: "PinkNoiseControl \<Rightarrow> frame list \<Rightarrow> fault + (frame list \<times> int \<times> bool \<times> PinkNoiseControl)" where
  "PinkNoiseControl_Stream pnc samples =
     (let (samples1, n, ok, pn1) = PinkNoise_Stream (stream pnc) samples;
          pnc1 = pnc\<lparr>stream := pn1\<rparr>
      in (case PinkNoiseControl_Stream_loop pnc1 (take (nat n) samples1) of Inl e \<Rightarrow> Inl e
          | Inr (out, pnc2) \<Rightarrow> Inr (out @ drop (nat n) samples1, n, ok, pnc2)))"

definition pinkNoiseControl :: "ConfigFrequencyChange list \<Rightarrow> Rand \<Rightarrow> PinkNoiseControl" where
  "pinkNoiseControl changes src = \<lparr>stream = NewPinkNoise src, volumeFunc = createPinkNoiseFunc changes,
     sr = 44100, pos = 0\<rparr>"

section \<open>Vocabulary of the statements\<close>

text \<open>
  The definitions of this section are not code of the repository: they name what the
  theorems speak about. \<open>bp\<close> writes a breakpoint in the order
  time, frequency, beat frequency, noise on, noise volume, tone volume.
\<close>

definition bp :: "real \<Rightarrow> real \<Rightarrow> real \<Rightarrow> bool \<Rightarrow> real \<Rightarrow> real \<Rightarrow> ConfigFrequencyChange" where
  "bp tm f bf on nv tv = \<lparr>Time = tm, Frequency = f, BeatFrequency = bf, PinkNoiseOn = on,
     PinkNoiseVolume = nv, ToneVolume = tv\<rparr>"

text \<open>The linear value of the specification between two breakpoints \<open>a\<close> and \<open>b\<close>.\<close>

definition linearValue :: "(ConfigFrequencyChange \<Rightarrow> real) \<Rightarrow> ConfigFrequencyChange \<Rightarrow> ConfigFrequencyChange \<Rightarrow> real \<Rightarrow> real" where
  "linearValue fld a b t = fld a + (fld b - fld a) * (t - Time a) / (Time b - Time a)"

text \<open>All four query functions return the values of the breakpoint \<open>c\<close> at \<open>t\<close>.\<close>

definition queriesReturn :: "ConfigFrequencyChange list \<Rightarrow> real \<Rightarrow> ConfigFrequencyChange \<Rightarrow> bool" where
  "queriesReturn changes t c =
     (createFreqFunc changes t = Inr (Frequency c) \<and>
      createBeatFreqFunc changes t = Inr (BeatFrequency c) \<and>
      createVolumeFunc changes t = Inr (ToneVolume c) \<and>
      createPinkNoiseFunc changes t = Inr (PinkNoiseOn c, PinkNoiseVolume c))"

text \<open>
  At \<open>t\<close> the three linear query functions interpolate from \<open>a\<close> to \<open>b\<close> and the noise
  function holds the pair of \<open>a\<close>.
\<close>

definition queriesInterpolate :: "ConfigFrequencyChange list \<Rightarrow> real \<Rightarrow> ConfigFrequencyChange \<Rightarrow> ConfigFrequencyChange \<Rightarrow> bool" where
  "queriesInterpolate changes t a b =
     (createFreqFunc changes t = Inr (linearValue Frequency a b t) \<and>
      createBeatFreqFunc changes t = Inr (linearValue BeatFrequency a b t) \<and>
      createVolumeFunc changes t = Inr (linearValue ToneVolume a b t) \<and>
      createPinkNoiseFunc changes t = Inr (PinkNoiseOn a, PinkNoiseVolume a))"

text \<open>
  The time of the \<open>n\<close>-th sample of a call that starts at position \<open>pos0\<close>, and the
  phase after that sample when the frequency at time \<open>t\<close> is \<open>frequencyAt t\<close>: the
  starting phase plus every phase increment up to and including the \<open>n\<close>-th.
\<close>

definition sampleTime :: "int \<Rightarrow> int \<Rightarrow> nat \<Rightarrow> real" where
  "sampleTime rate pos0 n = of_int (pos0 + int n) / of_int rate"

definition deltaPhaseAt :: "(real \<Rightarrow> real) \<Rightarrow> int \<Rightarrow> int \<Rightarrow> nat \<Rightarrow> real" where
  "deltaPhaseAt frequencyAt rate pos0 n = 2 * pi * frequencyAt (sampleTime rate pos0 n) / of_int rate"

definition phaseAfter :: "(real \<Rightarrow> real) \<Rightarrow> int \<Rightarrow> int \<Rightarrow> real \<Rightarrow> nat \<Rightarrow> real" where
  "phaseAfter frequencyAt rate pos0 phase0 n = phase0 + (\<Sum>k\<le>n. deltaPhaseAt frequencyAt rate pos0 k)"

text \<open>A frame with \<open>s\<close> added to the channel \<open>ch\<close> (0 is left, anything else is right).\<close>

definition addToChannel :: "int \<Rightarrow> frame \<Rightarrow> real \<Rightarrow> frame" where
  "addToChannel ch smp s = (if ch = 0 then (fst smp + s, snd smp) else (fst smp, snd smp + s))"

text \<open>
  The sample an oscillator writes into the first frame of a zeroed buffer, read from the
  oscillator's own channel.
\<close>

definition firstSample :: "VariableTone \<Rightarrow> fault + real" where
  "firstSample vt =
     (case VariableTone_Stream vt [(0, 0)] of Inl e \<Rightarrow> Inl e
      | Inr (out, n, ok, vt1) \<Rightarrow> Inr (if channel vt = 0 then fst (out ! 0) else snd (out ! 0)))"

text \<open>The first \<open>n\<close> samples of the pink noise generator from the state \<open>pn\<close>.\<close>

fun pinkSamples :: "PinkNoise \<Rightarrow> nat \<Rightarrow> real list" where
  "pinkSamples pn 0 = []"
| "pinkSamples pn (Suc n) = (let (sample, pn1) = nextSample pn in sample # pinkSamples pn1 n)"

text \<open>The frames a stream call left in the buffer.\<close>

definition frames :: "fault + (frame list \<times> int \<times> bool \<times> 'st) \<Rightarrow> fault + frame list" where
  "frames r = (case r of Inl e \<Rightarrow> Inl e | Inr (out, n, ok, st) \<Rightarrow> Inr out)"

text \<open>
  Breakpoint sequences used as concrete inputs: the end-to-end scenario of the
  specification, and sequences with a duplicated time in the middle, at the start and at
  the end.
\<close>

definition scenario :: "ConfigFrequencyChange list" where
  "scenario = [bp 0 300 10 True 0.4 0.1, bp 10 150 6 False 0 0.15]"

definition dupMiddle :: "ConfigFrequencyChange list" where
  "dupMiddle = [bp 0 100 1 True 0.1 1, bp 5 200 2 False 0.2 1, bp 5 300 3 True 0.3 1, bp 10 400 4 False 0.4 1]"

definition dupFirst :: "ConfigFrequencyChange list" where
  "dupFirst = [bp 0 100 1 True 0.1 1, bp 0 200 2 False 0.2 1, bp 10 300 3 True 0.3 1]"

definition dupLast :: "ConfigFrequencyChange list" where
  "dupLast = [bp 0 100 1 True 0.1 1, bp 5 200 2 False 0.2 1, bp 5 300 3 True 0.3 1]"

text \<open>A random source whose every draw is \<open>x\<close>.\<close>

definition constantSource :: "real \<Rightarrow> Rand" where
  "constantSource x n = x"

text \<open>The value of a query that returned one.\<close>

definition valueOf :: "fault + 'a \<Rightarrow> 'a" where
  "valueOf r = (case r of Inr y \<Rightarrow> y)"

text \<open>The scenario with the tone volume 0 at the first breakpoint.\<close>

definition silentStart :: "ConfigFrequencyChange list" where
  "silentStart = [bp 0 300 10 True 0.4 0, bp 10 150 6 False 0 0.15]"

text \<open>An output of the converter with a strictly positive noise volume at its first record.\<close>

definition convertedScenario :: "FrequencyChange list" where
  "convertedScenario =
     [\<lparr>FrequencyChange.Time = 0, Frequency = 300, BeatFrequency = 10, PinkNoiseVolume = 0.4, ToneVolume = 0.1\<rparr>,
      \<lparr>FrequencyChange.Time = 10, Frequency = 150, BeatFrequency = 6, PinkNoiseVolume = 0.2, ToneVolume = 0.15\<rparr>]"

text \<open>The breakpoint the player decodes from a record the converter wrote.\<close>

definition decodedFrom :: "FrequencyChange \<Rightarrow> ConfigFrequencyChange" where
  "decodedFrom fc = \<lparr>Time = FrequencyChange.Time fc, Frequency = FrequencyChange.Frequency fc,
     BeatFrequency = FrequencyChange.BeatFrequency fc, PinkNoiseOn = False,
     PinkNoiseVolume = FrequencyChange.PinkNoiseVolume fc, ToneVolume = FrequencyChange.ToneVolume fc\<rparr>"

section \<open>The closures as instances of the common shape\<close>

lemma index_in: "i < length xs \<Longrightarrow> index xs i = Inr (xs ! i)"
  by (simp add: index_def)

lemma freq_loop_scan:
  "changes \<noteq> [] \<Longrightarrow> createFreqFunc_loop changes t i = scan_loop (lerp Frequency) Frequency changes t i"
proof (induction changes t i rule: createFreqFunc_loop.induct)
  case (1 changes t i)
  note L = createFreqFunc_loop.simps [of changes t i]
  note R = scan_loop.simps [of "lerp Frequency" Frequency changes t i]
  show ?case
  proof (cases "i < length changes - 1")
    case True
    then have a: "index changes i = Inr (changes ! i)"
      and b: "index changes (i + 1) = Inr (changes ! (i + 1))"
      by (simp_all add: index_in)
    show ?thesis
    proof (cases "t \<ge> Time (changes ! i) \<and> t < Time (changes ! (i + 1))")
      case hit: True
      show ?thesis unfolding L R using True a b hit
        by (simp add: lerp_def Let_def)
    next
      case miss: False
      from "1.IH" [OF True a b miss "1.prems"] True a b miss show ?thesis
        by (auto simp: L R)
    qed
  next
    case False
    show ?thesis unfolding L R using False "1.prems"
      by (simp add: index_def)
  qed
qed

lemma freq_scan: "createFreqFunc changes t = scan (lerp Frequency) Frequency 0 changes t"
  by (cases "changes = []")
     (simp_all add: createFreqFunc_def scan_def index_def freq_loop_scan)

lemma beat_loop_scan:
  "changes \<noteq> [] \<Longrightarrow> createBeatFreqFunc_loop changes t i = scan_loop (lerp BeatFrequency) BeatFrequency changes t i"
proof (induction changes t i rule: createBeatFreqFunc_loop.induct)
  case (1 changes t i)
  note L = createBeatFreqFunc_loop.simps [of changes t i]
  note R = scan_loop.simps [of "lerp BeatFrequency" BeatFrequency changes t i]
  show ?case
  proof (cases "i < length changes - 1")
    case True
    then have a: "index changes i = Inr (changes ! i)"
      and b: "index changes (i + 1) = Inr (changes ! (i + 1))"
      by (simp_all add: index_in)
    show ?thesis
    proof (cases "t \<ge> Time (changes ! i) \<and> t < Time (changes ! (i + 1))")
      case hit: True
      show ?thesis unfolding L R using True a b hit
        by (simp add: lerp_def Let_def)
    next
      case miss: False
      from "1.IH" [OF True a b miss "1.prems"] True a b miss show ?thesis
        by (auto simp: L R)
    qed
  next
    case False
    show ?thesis unfolding L R using False "1.prems"
      by (simp add: index_def)
  qed
qed

lemma beat_scan: "createBeatFreqFunc changes t = scan (lerp BeatFrequency) BeatFrequency 0 changes t"
  by (cases "changes = []")
     (simp_all add: createBeatFreqFunc_def scan_def index_def beat_loop_scan)

lemma vol_loop_scan:
  "changes \<noteq> [] \<Longrightarrow> createVolumeFunc_loop changes t i = scan_loop (lerp ToneVolume) ToneVolume changes t i"
proof (induction changes t i rule: createVolumeFunc_loop.induct)
  case (1 changes t i)
  note L = createVolumeFunc_loop.simps [of changes t i]
  note R = scan_loop.simps [of "lerp ToneVolume" ToneVolume changes t i]
  show ?case
  proof (cases "i < length changes - 1")
    case True
    then have a: "index changes i = Inr (changes ! i)"
      and b: "index changes (i + 1) = Inr (changes ! (i + 1))"
      by (simp_all add: index_in)
    show ?thesis
    proof (cases "t \<ge> Time (changes ! i) \<and> t < Time (changes ! (i + 1))")
      case hit: True
      show ?thesis unfolding L R using True a b hit
        by (simp add: lerp_def Let_def)
    next
      case miss: False
      from "1.IH" [OF True a b miss "1.prems"] True a b miss show ?thesis
        by (auto simp: L R)
    qed
  next
    case False
    show ?thesis unfolding L R using False "1.prems"
      by (simp add: index_def)
  qed
qed

lemma vol_scan: "createVolumeFunc changes t = scan (lerp ToneVolume) ToneVolume 1 changes t"
  by (cases "changes = []")
     (simp_all add: createVolumeFunc_def scan_def index_def vol_loop_scan)

lemma noise_loop_scan:
  "changes \<noteq> [] \<Longrightarrow> createPinkNoiseFunc_loop changes t i = scan_loop (step) noisePair changes t i"
proof (induction changes t i rule: createPinkNoiseFunc_loop.induct)
  case (1 changes t i)
  note L = createPinkNoiseFunc_loop.simps [of changes t i]
  note R = scan_loop.simps [of "step" noisePair changes t i]
  show ?case
  proof (cases "i < length changes - 1")
    case True
    then have a: "index changes i = Inr (changes ! i)"
      and b: "index changes (i + 1) = Inr (changes ! (i + 1))"
      by (simp_all add: index_in)
    show ?thesis
    proof (cases "t \<ge> Time (changes ! i) \<and> t < Time (changes ! (i + 1))")
      case hit: True
      show ?thesis unfolding L R using True a b hit
        by (simp add: step_def noisePair_def Let_def)
    next
      case miss: False
      from "1.IH" [OF True a b miss "1.prems"] True a b miss show ?thesis
        by (auto simp: L R)
    qed
  next
    case False
    show ?thesis unfolding L R using False "1.prems"
      by (simp add: index_def noisePair_def)
  qed
qed

lemma noise_scan: "createPinkNoiseFunc changes t = scan (step) noisePair (False, 0) changes t"
proof (cases "changes = []")
  case True
  then show ?thesis by (simp add: createPinkNoiseFunc_def scan_def)
next
  case False
  then show ?thesis
    unfolding createPinkNoiseFunc_def scan_def by (simp add: index_def noise_loop_scan noisePair_def)
qed

section \<open>Properties of the common shape\<close>

lemma nondecreasing_nth:
  "nondecreasing changes \<Longrightarrow> i \<le> j \<Longrightarrow> j < length changes \<Longrightarrow> Time (changes ! i) \<le> Time (changes ! j)"
  unfolding nondecreasing_def using sorted_nth_mono [of "map Time changes" i j] by simp

lemma increasing_nth:
  "increasing changes \<Longrightarrow> i < j \<Longrightarrow> j < length changes \<Longrightarrow> Time (changes ! i) < Time (changes ! j)"
  unfolding increasing_def using sorted_wrt_nth_less [of "(<)" "map Time changes" i j] by simp

lemma increasing_nondecreasing: "increasing changes \<Longrightarrow> nondecreasing changes"
  unfolding increasing_def nondecreasing_def
  by (metis (no_types) sorted_wrt_mono_rel less_imp_le)

lemma scan_loop_total:
  assumes "\<And>a b. Time a \<le> t \<Longrightarrow> t < Time b \<Longrightarrow> \<exists>y. hit a b t = Inr y"
  shows "\<exists>y. scan_loop hit fld changes t i = Inr y"
  using assms
proof (induction hit fld changes t i rule: scan_loop.induct)
  case (1 hit fld changes t i)
  note R = scan_loop.simps [of hit fld changes t i]
  show ?case
  proof (cases "i < length changes - 1 \<and> \<not> (t \<ge> Time (changes ! i) \<and> t < Time (changes ! (i + 1)))")
    case True
    with "1.IH" "1.prems" show ?thesis by (simp add: R)
  next
    case False
    with "1.prems" show ?thesis by (auto simp: R)
  qed
qed

lemma scan_total:
  assumes "\<And>a b. Time a \<le> t \<Longrightarrow> t < Time b \<Longrightarrow> \<exists>y. hit a b t = Inr y"
  shows "\<exists>y. scan hit fld dflt changes t = Inr y"
  using scan_loop_total [of t hit fld changes 0, OF assms] by (simp add: scan_def)

lemma scan_loop_found:
  assumes nd: "nondecreasing changes" and j: "j + 1 < length changes"
    and lo: "Time (changes ! j) \<le> t" and hi: "t < Time (changes ! (j + 1))"
  shows "k \<le> j \<Longrightarrow> scan_loop hit fld changes t k = hit (changes ! j) (changes ! (j + 1)) t"
proof (induction "j - k" arbitrary: k)
  case 0
  then have "k = j" by simp
  moreover from j have "j < length changes - 1" by arith
  ultimately show ?case using lo hi by (simp add: scan_loop.simps [of hit fld changes t j])
next
  case (Suc d)
  then have kj: "k < j" by simp
  with j nd have "Time (changes ! (k + 1)) \<le> Time (changes ! j)"
    by (intro nondecreasing_nth) simp_all
  with lo have miss: "\<not> t < Time (changes ! (k + 1))" by simp
  from kj j have k: "k < length changes - 1" by arith
  from Suc kj have "scan_loop hit fld changes t (k + 1) = hit (changes ! j) (changes ! (j + 1)) t"
    by simp
  with miss k show ?case by (simp add: scan_loop.simps [of hit fld changes t k])
qed

lemma scan_first:
  "changes \<noteq> [] \<Longrightarrow> t \<le> Time (changes ! 0) \<Longrightarrow> scan hit fld dflt changes t = Inr (fld (changes ! 0))"
  by (simp add: scan_def)

lemma scan_last:
  "changes \<noteq> [] \<Longrightarrow> Time (changes ! 0) < t \<Longrightarrow> Time (changes ! (length changes - 1)) \<le> t \<Longrightarrow>
   scan hit fld dflt changes t = Inr (fld (changes ! (length changes - 1)))"
  by (simp add: scan_def)

lemma scan_interval:
  assumes nd: "nondecreasing changes" and j: "j + 1 < length changes"
    and lo: "Time (changes ! j) \<le> t" and hi: "t < Time (changes ! (j + 1))"
    and first: "Time (changes ! 0) < t"
  shows "scan hit fld dflt changes t = hit (changes ! j) (changes ! (j + 1)) t"
proof -
  from j have ne: "changes \<noteq> []" by auto
  from nd j have "Time (changes ! (j + 1)) \<le> Time (changes ! (length changes - 1))"
    by (intro nondecreasing_nth) simp_all
  with hi have "\<not> Time (changes ! (length changes - 1)) \<le> t" by simp
  with ne first show ?thesis
    by (simp add: scan_def scan_loop_found [OF nd j lo hi])
qed

lemma lerp_value:
  "Time a \<le> t \<Longrightarrow> t < Time b \<Longrightarrow>
   lerp fld a b t = Inr (fld a + (fld b - fld a) * (t - Time a) / (Time b - Time a))"
  by (simp add: lerp_def fdiv_def)

lemma lerp_total: "Time a \<le> t \<Longrightarrow> t < Time b \<Longrightarrow> \<exists>y. lerp fld a b t = Inr y"
  by (simp add: lerp_value)

lemma linear_interval:
  assumes "nondecreasing changes" and "j + 1 < length changes"
    and "Time (changes ! j) \<le> t" and "t < Time (changes ! (j + 1))" and "Time (changes ! 0) < t"
  shows "scan (lerp fld) fld dflt changes t =
    Inr (fld (changes ! j) + (fld (changes ! (j + 1)) - fld (changes ! j)) * (t - Time (changes ! j))
          / (Time (changes ! (j + 1)) - Time (changes ! j)))"
  using scan_interval [OF assms, of "lerp fld" fld dflt] assms(3,4) by (simp add: lerp_value)

lemma step_interval:
  assumes "nondecreasing changes" and "j + 1 < length changes"
    and "Time (changes ! j) \<le> t" and "t < Time (changes ! (j + 1))" and "Time (changes ! 0) < t"
  shows "scan step noisePair dflt changes t = Inr (PinkNoiseOn (changes ! j), PinkNoiseVolume (changes ! j))"
  using scan_interval [OF assms, of step noisePair dflt] by (simp add: step_def)

section \<open>The query functions at the clamps and inside an interval\<close>

lemma bp_sel [simp]:
  "Time (bp tm f bf on nv tv) = tm" "Frequency (bp tm f bf on nv tv) = f"
  "BeatFrequency (bp tm f bf on nv tv) = bf" "PinkNoiseOn (bp tm f bf on nv tv) = on"
  "PinkNoiseVolume (bp tm f bf on nv tv) = nv" "ToneVolume (bp tm f bf on nv tv) = tv"
  by (simp_all add: bp_def)

lemma queries_first:
  "changes \<noteq> [] \<Longrightarrow> t \<le> Time (changes ! 0) \<Longrightarrow> queriesReturn changes t (changes ! 0)"
  by (simp add: queriesReturn_def freq_scan beat_scan vol_scan noise_scan scan_first noisePair_def)

lemma queries_last:
  "changes \<noteq> [] \<Longrightarrow> Time (changes ! 0) < t \<Longrightarrow> Time (changes ! (length changes - 1)) \<le> t \<Longrightarrow>
   queriesReturn changes t (changes ! (length changes - 1))"
  by (simp add: queriesReturn_def freq_scan beat_scan vol_scan noise_scan scan_last noisePair_def)

lemma queries_interval:
  assumes "nondecreasing changes" and "j + 1 < length changes"
    and "Time (changes ! j) \<le> t" and "t < Time (changes ! (j + 1))" and "Time (changes ! 0) < t"
  shows "queriesInterpolate changes t (changes ! j) (changes ! (j + 1))"
  unfolding queriesInterpolate_def linearValue_def freq_scan beat_scan vol_scan noise_scan
  using linear_interval [OF assms] step_interval [OF assms] by simp

lemma queries_total:
  "(\<exists>y. createFreqFunc changes t = Inr y) \<and> (\<exists>y. createBeatFreqFunc changes t = Inr y) \<and>
   (\<exists>y. createVolumeFunc changes t = Inr y) \<and> (\<exists>y. createPinkNoiseFunc changes t = Inr y)"
  unfolding freq_scan beat_scan vol_scan noise_scan
  by (intro conjI scan_total lerp_total) (simp_all add: step_def)

section \<open>Properties of the oscillator loop\<close>

lemma phaseAfter_0: "phaseAfter f rate p ph 0 = ph + deltaPhaseAt f rate p 0"
  by (simp add: phaseAfter_def)

lemma sampleTime_shift: "sampleTime rate (p + 1) k = sampleTime rate p (Suc k)"
  by (simp add: sampleTime_def add.commute add.left_commute)

lemma deltaPhaseAt_shift: "deltaPhaseAt f rate (p + 1) k = deltaPhaseAt f rate p (Suc k)"
  by (simp add: deltaPhaseAt_def sampleTime_shift)

lemma phaseAfter_shift:
  "phaseAfter f rate (p + 1) (ph + deltaPhaseAt f rate p 0) m = phaseAfter f rate p ph (Suc m)"
  unfolding phaseAfter_def deltaPhaseAt_shift
  by (subst sum.atMost_Suc_shift) simp

lemma VariableTone_step:
  assumes "VariableTone.sr vt \<noteq> 0"
    and "freqFunc vt (sampleTime (VariableTone.sr vt) (VariableTone.pos vt) 0) = Inr fr"
    and "VariableTone.volumeFunc vt (sampleTime (VariableTone.sr vt) (VariableTone.pos vt) 0) = Inr vol"
  shows "VariableTone_Stream_loop vt (smp # rest) =
    (case VariableTone_Stream_loop
        (vt\<lparr>phase := phase vt + 2 * pi * fr / of_int (VariableTone.sr vt),
             VariableTone.pos := VariableTone.pos vt + 1\<rparr>) rest of
       Inl e \<Rightarrow> Inl e
     | Inr (out, vt3) \<Rightarrow>
         Inr (addToChannel (channel vt) smp
               (sin (phase vt + 2 * pi * fr / of_int (VariableTone.sr vt)) * vol * 0.5) # out, vt3))"
  using assms by (auto simp: fdiv_def sampleTime_def addToChannel_def Let_def split: sum.splits)

lemma VariableTone_loop_closed:
  assumes "VariableTone.sr vt \<noteq> 0"
    and "\<forall>t. freqFunc vt t = Inr (f t)"
    and "\<forall>t. VariableTone.volumeFunc vt t = Inr (v t)"
  shows "\<exists>out. VariableTone_Stream_loop vt samples =
           Inr (out, vt\<lparr>phase := phase vt + (\<Sum>k<length samples. deltaPhaseAt f (VariableTone.sr vt) (VariableTone.pos vt) k),
                        VariableTone.pos := VariableTone.pos vt + int (length samples)\<rparr>)
         \<and> length out = length samples
         \<and> (\<forall>n<length samples. out ! n = addToChannel (channel vt) (samples ! n)
               (sin (phaseAfter f (VariableTone.sr vt) (VariableTone.pos vt) (phase vt) n)
                  * v (sampleTime (VariableTone.sr vt) (VariableTone.pos vt) n) * 0.5))"
  using assms
proof (induction samples arbitrary: vt)
  case Nil
  then show ?case by simp
next
  case (Cons smp rest)
  let ?R = "VariableTone.sr vt" and ?p = "VariableTone.pos vt"
  let ?d = "deltaPhaseAt f ?R ?p 0"
  let ?vt2 = "vt\<lparr>phase := phase vt + 2 * pi * f (sampleTime ?R ?p 0) / of_int ?R,
             VariableTone.pos := ?p + 1\<rparr>"
  have d: "2 * pi * f (sampleTime ?R ?p 0) / of_int ?R = ?d" by (simp add: deltaPhaseAt_def)
  have "VariableTone.sr ?vt2 \<noteq> 0" "\<forall>t. freqFunc ?vt2 t = Inr (f t)" "\<forall>t. VariableTone.volumeFunc ?vt2 t = Inr (v t)"
    using Cons.prems by simp_all
  from Cons.IH [OF this] obtain out where
    run: "VariableTone_Stream_loop ?vt2 rest =
           Inr (out, ?vt2\<lparr>phase := phase ?vt2 + (\<Sum>k<length rest. deltaPhaseAt f (VariableTone.sr ?vt2) (VariableTone.pos ?vt2) k),
                        VariableTone.pos := VariableTone.pos ?vt2 + int (length rest)\<rparr>)"
    and len: "length out = length rest"
    and nth: "\<forall>n<length rest. out ! n = addToChannel (channel ?vt2) (rest ! n)
               (sin (phaseAfter f (VariableTone.sr ?vt2) (VariableTone.pos ?vt2) (phase ?vt2) n)
                  * v (sampleTime (VariableTone.sr ?vt2) (VariableTone.pos ?vt2) n) * 0.5)"
    by blast
  let ?s0 = "addToChannel (channel vt) smp (sin (phase vt + ?d) * v (sampleTime ?R ?p 0) * 0.5)"
  have step: "VariableTone_Stream_loop vt (smp # rest) =
     Inr (?s0 # out, ?vt2\<lparr>phase := phase ?vt2 + (\<Sum>k<length rest. deltaPhaseAt f (VariableTone.sr ?vt2) (VariableTone.pos ?vt2) k),
                        VariableTone.pos := VariableTone.pos ?vt2 + int (length rest)\<rparr>)"
    using VariableTone_step [of vt "f (sampleTime ?R ?p 0)" "v (sampleTime ?R ?p 0)" smp rest] Cons.prems run
    by (simp add: d)
  have sum: "?d + (\<Sum>k<length rest. deltaPhaseAt f ?R (?p + 1) k) = (\<Sum>k<length (smp # rest). deltaPhaseAt f ?R ?p k)"
    by (simp only: deltaPhaseAt_shift length_Cons sum.lessThan_Suc_shift)
  have final: "?vt2\<lparr>phase := phase ?vt2 + (\<Sum>k<length rest. deltaPhaseAt f (VariableTone.sr ?vt2) (VariableTone.pos ?vt2) k),
                        VariableTone.pos := VariableTone.pos ?vt2 + int (length rest)\<rparr>
      = vt\<lparr>phase := phase vt + (\<Sum>k<length (smp # rest). deltaPhaseAt f ?R ?p k),
                        VariableTone.pos := ?p + int (length (smp # rest))\<rparr>"
    using sum by (simp add: d add.assoc)
  have frames: "(?s0 # out) ! n = addToChannel (channel vt) ((smp # rest) ! n)
               (sin (phaseAfter f ?R ?p (phase vt) n) * v (sampleTime ?R ?p n) * 0.5)"
    if "n < length (smp # rest)" for n
  proof (cases n)
    case 0
    then show ?thesis by (simp add: phaseAfter_0)
  next
    case (Suc m)
    with that have "m < length rest" by simp
    with nth have "out ! m = addToChannel (channel vt) (rest ! m)
               (sin (phaseAfter f ?R (?p + 1) (phase vt + ?d) m) * v (sampleTime ?R (?p + 1) m) * 0.5)"
      by (simp add: d)
    with Suc show ?thesis by (simp add: phaseAfter_shift sampleTime_shift)
  qed
  show ?case
    unfolding step final using len frames by simp
qed

section \<open>Properties of the noise path, the total playback time and the loaded configuration\<close>

lemma pink_loop_closed:
  "PinkNoise_Stream_loop pn samples = (out, pn1) \<Longrightarrow>
   length out = length samples \<and>
   (\<forall>n<length samples. out ! n = (fst (samples ! n) + pinkSamples pn (length samples) ! n,
                                   snd (samples ! n) + pinkSamples pn (length samples) ! n))"
proof (induction samples arbitrary: pn out pn1)
  case Nil
  then show ?case by simp
next
  case (Cons smp rest)
  obtain sample pn2 where ns: "nextSample pn = (sample, pn2)" by (cases "nextSample pn")
  obtain out2 pn3 where run: "PinkNoise_Stream_loop pn2 rest = (out2, pn3)"
    by (cases "PinkNoise_Stream_loop pn2 rest")
  from Cons.prems ns run have out: "out = (fst smp + sample, snd smp + sample) # out2" by simp
  from Cons.IH [OF run] have len: "length out2 = length rest"
    and nth: "\<forall>n<length rest. out2 ! n = (fst (rest ! n) + pinkSamples pn2 (length rest) ! n,
                                   snd (rest ! n) + pinkSamples pn2 (length rest) ! n)"
    by simp_all
  have "out ! n = (fst ((smp # rest) ! n) + pinkSamples pn (length (smp # rest)) ! n,
                   snd ((smp # rest) ! n) + pinkSamples pn (length (smp # rest)) ! n)"
    if "n < length (smp # rest)" for n
    using that nth by (cases n) (simp_all add: out ns)
  with len out show ?case by simp
qed

lemma PinkNoiseControl_step:
  assumes "PinkNoiseControl.sr pnc \<noteq> 0"
    and "PinkNoiseControl.volumeFunc pnc (sampleTime (PinkNoiseControl.sr pnc) (PinkNoiseControl.pos pnc) 0) = Inr (on, vol)"
  shows "PinkNoiseControl_Stream_loop pnc (smp # rest) =
    (case PinkNoiseControl_Stream_loop (pnc\<lparr>PinkNoiseControl.pos := PinkNoiseControl.pos pnc + 1\<rparr>) rest of
       Inl e \<Rightarrow> Inl e
     | Inr (out, pnc2) \<Rightarrow>
         Inr ((if \<not> on then (0, 0) else (fst smp * vol * 0.5, fst smp * vol * 0.5)) # out, pnc2))"
  using assms by (auto simp: fdiv_def sampleTime_def Let_def split: sum.splits)

lemma gate_loop_closed:
  assumes "PinkNoiseControl.sr pnc \<noteq> 0"
    and "\<forall>t. PinkNoiseControl.volumeFunc pnc t = Inr (noise t)"
  shows "\<exists>out. PinkNoiseControl_Stream_loop pnc xs =
           Inr (out, pnc\<lparr>PinkNoiseControl.pos := PinkNoiseControl.pos pnc + int (length xs)\<rparr>)
         \<and> length out = length xs
         \<and> (\<forall>n<length xs. out ! n =
               (if \<not> fst (noise (sampleTime (PinkNoiseControl.sr pnc) (PinkNoiseControl.pos pnc) n)) then (0, 0)
                else (fst (xs ! n) * snd (noise (sampleTime (PinkNoiseControl.sr pnc) (PinkNoiseControl.pos pnc) n)) * 0.5,
                      fst (xs ! n) * snd (noise (sampleTime (PinkNoiseControl.sr pnc) (PinkNoiseControl.pos pnc) n)) * 0.5)))"
  using assms
proof (induction xs arbitrary: pnc)
  case Nil
  then show ?case by simp
next
  case (Cons smp rest)
  let ?R = "PinkNoiseControl.sr pnc" and ?p = "PinkNoiseControl.pos pnc"
  let ?pnc1 = "pnc\<lparr>PinkNoiseControl.pos := ?p + 1\<rparr>"
  have "PinkNoiseControl.sr ?pnc1 \<noteq> 0" "\<forall>t. PinkNoiseControl.volumeFunc ?pnc1 t = Inr (noise t)"
    using Cons.prems by simp_all
  from Cons.IH [OF this] obtain out where
    run: "PinkNoiseControl_Stream_loop ?pnc1 rest =
            Inr (out, ?pnc1\<lparr>PinkNoiseControl.pos := PinkNoiseControl.pos ?pnc1 + int (length rest)\<rparr>)"
    and len: "length out = length rest"
    and nth: "\<forall>n<length rest. out ! n =
               (if \<not> fst (noise (sampleTime (PinkNoiseControl.sr ?pnc1) (PinkNoiseControl.pos ?pnc1) n)) then (0, 0)
                else (fst (rest ! n) * snd (noise (sampleTime (PinkNoiseControl.sr ?pnc1) (PinkNoiseControl.pos ?pnc1) n)) * 0.5,
                      fst (rest ! n) * snd (noise (sampleTime (PinkNoiseControl.sr ?pnc1) (PinkNoiseControl.pos ?pnc1) n)) * 0.5))"
    by blast
  let ?nz = "noise (sampleTime ?R ?p 0)"
  let ?s0 = "if \<not> fst ?nz then (0, 0) else (fst smp * snd ?nz * 0.5, fst smp * snd ?nz * 0.5)"
  have vf: "PinkNoiseControl.volumeFunc pnc (sampleTime ?R ?p 0) = Inr (fst ?nz, snd ?nz)"
    using Cons.prems by simp
  have step: "PinkNoiseControl_Stream_loop pnc (smp # rest) =
     Inr (?s0 # out, pnc\<lparr>PinkNoiseControl.pos := ?p + int (length (smp # rest))\<rparr>)"
    using PinkNoiseControl_step [OF Cons.prems(1) vf, of smp rest] run by (simp add: add.assoc)
  have frames: "(?s0 # out) ! n =
               (if \<not> fst (noise (sampleTime ?R ?p n)) then (0, 0)
                else (fst ((smp # rest) ! n) * snd (noise (sampleTime ?R ?p n)) * 0.5,
                      fst ((smp # rest) ! n) * snd (noise (sampleTime ?R ?p n)) * 0.5))"
    if "n < length (smp # rest)" for n
  proof (cases n)
    case 0
    then show ?thesis by simp
  next
    case (Suc m)
    with that have "m < length rest" by simp
    with nth Suc show ?thesis by (simp add: sampleTime_shift)
  qed
  show ?case unfolding step using len frames by simp
qed

lemma fold_max_Time:
  "fold (\<lambda>change maxTime. if Time change > maxTime then Time change else maxTime) xs a
     = fold max (map Time xs) a"
  by (induction xs arbitrary: a) (simp_all add: max_def not_less)

lemma getTotalPlaybackTime_Max:
  "changes \<noteq> [] \<Longrightarrow> getTotalPlaybackTime changes = Inr (Max (Time ` set changes))"
proof -
  assume ne: "changes \<noteq> []"
  then have c0: "changes ! 0 \<in> set changes" by simp
  have "fold max (map Time changes) (Time (changes ! 0)) = Max (set (Time (changes ! 0) # map Time changes))"
    by (simp only: Max.set_eq_fold)
  also have "set (Time (changes ! 0) # map Time changes) = Time ` set changes"
    using c0 by auto
  finally show ?thesis using ne by (simp add: getTotalPlaybackTime_def index_def fold_max_Time)
qed

lemma scan_loop_noise_member:
  "changes \<noteq> [] \<Longrightarrow> \<exists>c\<in>set changes. scan_loop step noisePair changes t i = Inr (noisePair c)"
proof (induction step noisePair changes t i rule: scan_loop.induct)
  case (1 changes t i)
  note R = scan_loop.simps [of step noisePair changes t i]
  show ?case
  proof (cases "i < length changes - 1")
    case True
    then have i: "i < length changes" by arith
    show ?thesis
    proof (cases "t \<ge> Time (changes ! i) \<and> t < Time (changes ! (i + 1))")
      case hit: True
      have "scan_loop step noisePair changes t i = Inr (noisePair (changes ! i))"
        unfolding R using True hit by (simp add: step_def noisePair_def)
      with i show ?thesis using nth_mem by blast
    next
      case miss: False
      with "1.hyps" [OF True miss "1.prems"] True show ?thesis by (auto simp: R)
    qed
  next
    case False
    have "scan_loop step noisePair changes t i = Inr (noisePair (changes ! (length changes - 1)))"
      unfolding R using False by simp
    moreover have "changes ! (length changes - 1) \<in> set changes" using "1.prems" by simp
    ultimately show ?thesis by blast
  qed
qed

lemma noise_off_everywhere:
  assumes "\<forall>c\<in>set changes. \<not> PinkNoiseOn c"
  shows "\<exists>vol. createPinkNoiseFunc changes t = Inr (False, vol)"
proof (cases "changes = []")
  case True
  then show ?thesis by (simp add: createPinkNoiseFunc_def)
next
  case False
  have "\<exists>c\<in>set changes. createPinkNoiseFunc changes t = Inr (noisePair c)"
    unfolding noise_scan scan_def using False scan_loop_noise_member [OF False, of t 0]
    by auto
  with assms show ?thesis by (auto simp: noisePair_def)
qed

lemma valueOf_Inr [simp]: "valueOf (Inr y) = y"
  by (simp add: valueOf_def)

lemma Inr_valueOf: "\<exists>y. r = Inr y \<Longrightarrow> r = Inr (valueOf r)"
  by auto

lemma freqFuncRight_total:
  "\<exists>base beat. createFreqFunc changes t = Inr base \<and> createBeatFreqFunc changes t = Inr beat
     \<and> freqFuncRight changes t = Inr (base + beat)"
  using queries_total [of changes t] by (auto simp: freqFuncRight_def)

lemma firstSample_value:
  assumes "VariableTone.sr vt \<noteq> 0" and "VariableTone.pos vt = 0" and "phase vt = 0"
    and "freqFunc vt 0 = Inr f0" and "VariableTone.volumeFunc vt 0 = Inr v0"
  shows "firstSample vt = Inr (sin (2 * pi * f0 / of_int (VariableTone.sr vt)) * v0 * 0.5)"
  using assms by (simp add: firstSample_def VariableTone_Stream_def fdiv_def Let_def)

lemma gate_stream_closed:
  assumes sr: "PinkNoiseControl.sr pnc \<noteq> 0"
    and vf: "\<forall>t. PinkNoiseControl.volumeFunc pnc t = Inr (noise t)"
  shows "\<exists>out pnc1. PinkNoiseControl_Stream pnc samples = Inr (out, int (length samples), True, pnc1)
         \<and> PinkNoiseControl.pos pnc1 = PinkNoiseControl.pos pnc + int (length samples)
         \<and> PinkNoiseControl.sr pnc1 = PinkNoiseControl.sr pnc
         \<and> PinkNoiseControl.volumeFunc pnc1 = PinkNoiseControl.volumeFunc pnc
         \<and> length out = length samples
         \<and> (\<forall>n<length samples. out ! n =
               (if \<not> fst (noise (sampleTime (PinkNoiseControl.sr pnc) (PinkNoiseControl.pos pnc) n)) then (0, 0)
                else ((fst (samples ! n) + pinkSamples (stream pnc) (length samples) ! n)
                        * snd (noise (sampleTime (PinkNoiseControl.sr pnc) (PinkNoiseControl.pos pnc) n)) * 0.5,
                      (fst (samples ! n) + pinkSamples (stream pnc) (length samples) ! n)
                        * snd (noise (sampleTime (PinkNoiseControl.sr pnc) (PinkNoiseControl.pos pnc) n)) * 0.5)))"
proof -
  obtain samples1 pn1 where pl: "PinkNoise_Stream_loop (stream pnc) samples = (samples1, pn1)"
    by (cases "PinkNoise_Stream_loop (stream pnc) samples")
  from pink_loop_closed [OF pl] have len1: "length samples1 = length samples"
    and nth1: "\<forall>n<length samples. samples1 ! n =
         (fst (samples ! n) + pinkSamples (stream pnc) (length samples) ! n,
          snd (samples ! n) + pinkSamples (stream pnc) (length samples) ! n)"
    by simp_all
  let ?pnc1 = "pnc\<lparr>stream := pn1\<rparr>"
  have "PinkNoiseControl.sr ?pnc1 \<noteq> 0" "\<forall>t. PinkNoiseControl.volumeFunc ?pnc1 t = Inr (noise t)"
    using sr vf by simp_all
  from gate_loop_closed [OF this, of samples1] obtain out where
    run: "PinkNoiseControl_Stream_loop ?pnc1 samples1 =
           Inr (out, ?pnc1\<lparr>PinkNoiseControl.pos := PinkNoiseControl.pos ?pnc1 + int (length samples1)\<rparr>)"
    and len: "length out = length samples1"
    and nth: "\<forall>n<length samples1. out ! n =
               (if \<not> fst (noise (sampleTime (PinkNoiseControl.sr ?pnc1) (PinkNoiseControl.pos ?pnc1) n)) then (0, 0)
                else (fst (samples1 ! n) * snd (noise (sampleTime (PinkNoiseControl.sr ?pnc1) (PinkNoiseControl.pos ?pnc1) n)) * 0.5,
                      fst (samples1 ! n) * snd (noise (sampleTime (PinkNoiseControl.sr ?pnc1) (PinkNoiseControl.pos ?pnc1) n)) * 0.5))"
    by blast
  have stream: "PinkNoiseControl_Stream pnc samples =
      Inr (out, int (length samples), True,
           ?pnc1\<lparr>PinkNoiseControl.pos := PinkNoiseControl.pos ?pnc1 + int (length samples1)\<rparr>)"
    using pl run len1 by (simp add: PinkNoiseControl_Stream_def PinkNoise_Stream_def)
  have frames: "out ! n =
               (if \<not> fst (noise (sampleTime (PinkNoiseControl.sr pnc) (PinkNoiseControl.pos pnc) n)) then (0, 0)
                else ((fst (samples ! n) + pinkSamples (stream pnc) (length samples) ! n)
                        * snd (noise (sampleTime (PinkNoiseControl.sr pnc) (PinkNoiseControl.pos pnc) n)) * 0.5,
                      (fst (samples ! n) + pinkSamples (stream pnc) (length samples) ! n)
                        * snd (noise (sampleTime (PinkNoiseControl.sr pnc) (PinkNoiseControl.pos pnc) n)) * 0.5))"
    if "n < length samples" for n
    using that nth nth1 len1 by simp
  show ?thesis
    unfolding stream using len len1 frames by simp
qed

lemma singleton_list: "length xs = 1 \<Longrightarrow> xs = [xs ! 0]"
  by (cases xs) auto

lemma getTotalPlaybackTime_empty: "getTotalPlaybackTime [] = Inr 0"
  by (simp add: getTotalPlaybackTime_def)

lemma stretchTimes_empty: "stretchTimes s cfg = [] \<longleftrightarrow> cfg = []"
  by (simp add: stretchTimes_def)

lemma gate_frames_schedule:
  assumes "PinkNoiseControl.sr pnc \<noteq> 0"
    and "PinkNoiseControl.volumeFunc pnc = createPinkNoiseFunc changes"
  shows "\<exists>out pnc1. PinkNoiseControl_Stream pnc samples = Inr (out, int (length samples), True, pnc1)
         \<and> PinkNoiseControl.pos pnc1 = PinkNoiseControl.pos pnc + int (length samples)
         \<and> PinkNoiseControl.sr pnc1 = PinkNoiseControl.sr pnc
         \<and> PinkNoiseControl.volumeFunc pnc1 = PinkNoiseControl.volumeFunc pnc
         \<and> length out = length samples
         \<and> (\<forall>n<length samples. \<exists>on vol p.
               createPinkNoiseFunc changes
                 (of_int (PinkNoiseControl.pos pnc + int n) / of_int (PinkNoiseControl.sr pnc)) = Inr (on, vol)
               \<and> p = pinkSamples (stream pnc) (length samples) ! n
               \<and> (\<not> on \<longrightarrow> out ! n = (0, 0))
               \<and> (on \<longrightarrow> out ! n = ((fst (samples ! n) + p) * vol * 0.5, (fst (samples ! n) + p) * vol * 0.5))
               \<and> (on \<and> fst (samples ! n) = 0 \<longrightarrow> out ! n = (p * vol * 0.5, p * vol * 0.5))
               \<and> fst (out ! n) = snd (out ! n))"
proof -
  let ?noise = "\<lambda>t. valueOf (createPinkNoiseFunc changes t)"
  have tot: "createPinkNoiseFunc changes t = Inr (?noise t)" for t
    using queries_total [of changes t] by (intro Inr_valueOf) blast
  then have vf: "\<forall>t. PinkNoiseControl.volumeFunc pnc t = Inr (?noise t)"
    using assms(2) by simp
  from gate_stream_closed [OF assms(1) vf, of samples] obtain out pnc1 where
    run: "PinkNoiseControl_Stream pnc samples = Inr (out, int (length samples), True, pnc1)"
    and st: "PinkNoiseControl.pos pnc1 = PinkNoiseControl.pos pnc + int (length samples)"
      "PinkNoiseControl.sr pnc1 = PinkNoiseControl.sr pnc"
      "PinkNoiseControl.volumeFunc pnc1 = PinkNoiseControl.volumeFunc pnc"
      "length out = length samples"
    and nth: "\<forall>n<length samples. out ! n =
               (if \<not> fst (?noise (sampleTime (PinkNoiseControl.sr pnc) (PinkNoiseControl.pos pnc) n)) then (0, 0)
                else ((fst (samples ! n) + pinkSamples (stream pnc) (length samples) ! n)
                        * snd (?noise (sampleTime (PinkNoiseControl.sr pnc) (PinkNoiseControl.pos pnc) n)) * 0.5,
                      (fst (samples ! n) + pinkSamples (stream pnc) (length samples) ! n)
                        * snd (?noise (sampleTime (PinkNoiseControl.sr pnc) (PinkNoiseControl.pos pnc) n)) * 0.5))"
    by blast
  have frame: "\<exists>on vol p.
               createPinkNoiseFunc changes
                 (of_int (PinkNoiseControl.pos pnc + int n) / of_int (PinkNoiseControl.sr pnc)) = Inr (on, vol)
               \<and> p = pinkSamples (stream pnc) (length samples) ! n
               \<and> (\<not> on \<longrightarrow> out ! n = (0, 0))
               \<and> (on \<longrightarrow> out ! n = ((fst (samples ! n) + p) * vol * 0.5, (fst (samples ! n) + p) * vol * 0.5))
               \<and> (on \<and> fst (samples ! n) = 0 \<longrightarrow> out ! n = (p * vol * 0.5, p * vol * 0.5))
               \<and> fst (out ! n) = snd (out ! n)"
    if n: "n < length samples" for n
  proof -
    define tn where "tn = sampleTime (PinkNoiseControl.sr pnc) (PinkNoiseControl.pos pnc) n"
    have teq: "tn = of_int (PinkNoiseControl.pos pnc + int n) / of_int (PinkNoiseControl.sr pnc)"
      by (simp add: tn_def sampleTime_def)
    obtain on vol where nv: "?noise tn = (on, vol)" by (cases "?noise tn")
    with tot [of tn] have "createPinkNoiseFunc changes tn = Inr (on, vol)" by simp
    then have q: "createPinkNoiseFunc changes
        (of_int (PinkNoiseControl.pos pnc + int n) / of_int (PinkNoiseControl.sr pnc)) = Inr (on, vol)"
      unfolding teq .
    have "out ! n =
               (if \<not> fst (?noise tn) then (0, 0)
                else ((fst (samples ! n) + pinkSamples (stream pnc) (length samples) ! n)
                        * snd (?noise tn) * 0.5,
                      (fst (samples ! n) + pinkSamples (stream pnc) (length samples) ! n)
                        * snd (?noise tn) * 0.5))"
      using nth [rule_format, OF n] unfolding tn_def .
    then have o: "out ! n = (if \<not> on then (0, 0)
        else ((fst (samples ! n) + pinkSamples (stream pnc) (length samples) ! n) * vol * 0.5,
              (fst (samples ! n) + pinkSamples (stream pnc) (length samples) ! n) * vol * 0.5))"
      by (simp add: nv)
    show ?thesis
      by (rule exI [of _ on], rule exI [of _ vol],
          rule exI [of _ "pinkSamples (stream pnc) (length samples) ! n"])
         (simp only: q o, simp)
  qed
  from run st frame show ?thesis by blast
qed

lemma unmarshal_marshal:
  "unmarshalConfigFrequencyChange (marshalFrequencyChange fc) = Inr (decodedFrom fc)"
  by (simp add: unmarshalConfigFrequencyChange_def marshalFrequencyChange_def floatField_def
        boolField_def decodedFrom_def)

lemma unmarshalConfig_marshalConfig:
  "unmarshalConfig (marshalConfig fcs) = Inr (map decodedFrom fcs)"
  by (induction fcs) (simp_all add: marshalConfig_def unmarshal_marshal)

lemma stretchTimes_noise [simp]:
  "map PinkNoiseOn (stretchTimes s cs) = map PinkNoiseOn cs"
  "map PinkNoiseVolume (stretchTimes s cs) = map PinkNoiseVolume cs"
  by (simp_all add: stretchTimes_def)

lemma noise_off_stretch:
  "\<forall>c\<in>set cs. \<not> PinkNoiseOn c \<Longrightarrow> \<forall>c\<in>set (stretchTimes s cs). \<not> PinkNoiseOn c"
  by (auto simp: stretchTimes_def)

lemma gate_silent:
  assumes off: "\<forall>c\<in>set changes. \<not> PinkNoiseOn c"
    and sr: "PinkNoiseControl.sr pnc \<noteq> 0"
    and vf: "PinkNoiseControl.volumeFunc pnc = createPinkNoiseFunc changes"
  shows "frames (PinkNoiseControl_Stream pnc samples) = Inr (replicate (length samples) (0, 0))"
proof -
  from gate_frames_schedule [OF sr vf, of samples] obtain out pnc1 where
    run: "PinkNoiseControl_Stream pnc samples = Inr (out, int (length samples), True, pnc1)"
    and len: "length out = length samples"
    and nth: "\<forall>n<length samples. \<exists>on vol p.
               createPinkNoiseFunc changes
                 (of_int (PinkNoiseControl.pos pnc + int n) / of_int (PinkNoiseControl.sr pnc)) = Inr (on, vol)
               \<and> p = pinkSamples (stream pnc) (length samples) ! n
               \<and> (\<not> on \<longrightarrow> out ! n = (0, 0))
               \<and> (on \<longrightarrow> out ! n = ((fst (samples ! n) + p) * vol * 0.5, (fst (samples ! n) + p) * vol * 0.5))
               \<and> (on \<and> fst (samples ! n) = 0 \<longrightarrow> out ! n = (p * vol * 0.5, p * vol * 0.5))
               \<and> fst (out ! n) = snd (out ! n)"
    by blast
  have "out ! n = (0, 0)" if n: "n < length samples" for n
  proof -
    from nth [rule_format, OF n] obtain on vol where
      q: "createPinkNoiseFunc changes
            (of_int (PinkNoiseControl.pos pnc + int n) / of_int (PinkNoiseControl.sr pnc)) = Inr (on, vol)"
      and z: "\<not> on \<longrightarrow> out ! n = (0, 0)"
      by blast
    from noise_off_everywhere [OF off, of "of_int (PinkNoiseControl.pos pnc + int n) / of_int (PinkNoiseControl.sr pnc)"]
    obtain v where "createPinkNoiseFunc changes
            (of_int (PinkNoiseControl.pos pnc + int n) / of_int (PinkNoiseControl.sr pnc)) = Inr (False, v)"
      by blast
    with q have "\<not> on" by simp
    with z show ?thesis by simp
  qed
  with len have "out = replicate (length samples) (0, 0)"
    by (simp add: list_eq_iff_nth_eq)
  with run show ?thesis by (simp add: frames_def)
qed

lemma tone_first_frame:
  assumes sr: "VariableTone.sr vt \<noteq> 0" and p0: "VariableTone.pos vt = 0" and ph0: "phase vt = 0"
    and f: "\<forall>t. freqFunc vt t = Inr (f t)" and v: "\<forall>t. VariableTone.volumeFunc vt t = Inr (v t)"
  shows "\<exists>out. frames (VariableTone_Stream vt (smp # rest)) = Inr out
           \<and> length out = Suc (length rest)
           \<and> out ! 0 = addToChannel (channel vt) smp
                 (sin (2 * pi * f 0 / of_int (VariableTone.sr vt)) * v 0 * 0.5)"
proof -
  from VariableTone_loop_closed [OF sr f v, of "smp # rest"] obtain out vt1 where
    run: "VariableTone_Stream_loop vt (smp # rest) = Inr (out, vt1)"
    and len: "length out = length (smp # rest)"
    and nth: "\<forall>n<length (smp # rest). out ! n = addToChannel (channel vt) ((smp # rest) ! n)
               (sin (phaseAfter f (VariableTone.sr vt) (VariableTone.pos vt) (phase vt) n)
                  * v (sampleTime (VariableTone.sr vt) (VariableTone.pos vt) n) * 0.5)"
    by blast
  have t0: "sampleTime (VariableTone.sr vt) 0 0 = 0" by (simp add: sampleTime_def)
  from nth [rule_format, of 0] have "out ! 0 = addToChannel (channel vt) smp
                 (sin (2 * pi * f 0 / of_int (VariableTone.sr vt)) * v 0 * 0.5)"
    by (simp add: p0 ph0 phaseAfter_def deltaPhaseAt_def t0)
  with run len show ?thesis by (simp add: frames_def VariableTone_Stream_def)
qed

lemma leftTone_closures:
  "\<forall>t. freqFunc (leftTone changes) t = Inr (valueOf (createFreqFunc changes t))"
  "\<forall>t. VariableTone.volumeFunc (leftTone changes) t = Inr (valueOf (createVolumeFunc changes t))"
  using queries_total [of changes]
  by (auto simp: leftTone_def freqFuncLeft_def intro!: Inr_valueOf)

lemma rightTone_closures:
  "\<forall>t. freqFunc (rightTone changes) t = Inr (valueOf (freqFuncRight changes t))"
  "\<forall>t. VariableTone.volumeFunc (rightTone changes) t = Inr (valueOf (createVolumeFunc changes t))"
  using queries_total [of changes] freqFuncRight_total [of changes]
  by (auto simp: rightTone_def intro!: Inr_valueOf)

section \<open>Claims about the schedule\<close>

text \<open>
  C2. For a non-empty breakpoint sequence with strictly increasing times and \<open>t\<close> strictly
  between the times of the breakpoints \<open>i\<close> and \<open>i + 1\<close>, the frequency, beat frequency
  and tone volume query functions return \<open>v_i + (v_{i+1} - v_i) * (t - time_i) /
  (time_{i+1} - time_i)\<close> for their field. For the two breakpoints at time 0 with
  frequency 100 and at time 10 with frequency 200, whatever their other fields, the
  frequency at 5 is exactly 150.
\<close>

theorem interior_linear_interpolation:
  assumes "increasing changes" and "i + 1 < length changes"
    and "Time (changes ! i) < t" and "t < Time (changes ! (i + 1))"
  shows "createFreqFunc changes t =
           Inr (Frequency (changes ! i) + (Frequency (changes ! (i + 1)) - Frequency (changes ! i))
                  * (t - Time (changes ! i)) / (Time (changes ! (i + 1)) - Time (changes ! i)))
       \<and> createBeatFreqFunc changes t =
           Inr (BeatFrequency (changes ! i) + (BeatFrequency (changes ! (i + 1)) - BeatFrequency (changes ! i))
                  * (t - Time (changes ! i)) / (Time (changes ! (i + 1)) - Time (changes ! i)))
       \<and> createVolumeFunc changes t =
           Inr (ToneVolume (changes ! i) + (ToneVolume (changes ! (i + 1)) - ToneVolume (changes ! i))
                  * (t - Time (changes ! i)) / (Time (changes ! (i + 1)) - Time (changes ! i)))
       \<and> createFreqFunc [bp 0 100 bf0 on0 nv0 tv0, bp 10 200 bf1 on1 nv1 tv1] 5 = Inr 150"
proof -
  have nd: "nondecreasing changes" using assms(1) by (rule increasing_nondecreasing)
  have "Time (changes ! 0) \<le> Time (changes ! i)"
    using nd assms(2) by (intro nondecreasing_nth) simp_all
  with assms(3) have first: "Time (changes ! 0) < t" by simp
  have lo: "Time (changes ! i) \<le> t" using assms(3) by simp
  note li = linear_interval [OF nd assms(2) lo assms(4) first]
  let ?ex = "[bp 0 100 bf0 on0 nv0 tv0, bp 10 200 bf1 on1 nv1 tv1]"
  have "nondecreasing ?ex" by (simp add: nondecreasing_def)
  from linear_interval [OF this, of 0 5 Frequency 0]
  have "createFreqFunc ?ex 5 = Inr 150" by (simp add: freq_scan)
  with li show ?thesis by (simp add: freq_scan beat_scan vol_scan)
qed

theorem interior_linear_interpolation_witness:
  "increasing [bp 0 300 10 True 0.4 0.1, bp 10 150 6 False 0 0.15]
   \<and> createFreqFunc [bp 0 300 10 True 0.4 0.1, bp 10 150 6 False 0 0.15] 5 = Inr 225
   \<and> createBeatFreqFunc [bp 0 300 10 True 0.4 0.1, bp 10 150 6 False 0 0.15] 5 = Inr 8
   \<and> createVolumeFunc [bp 0 300 10 True 0.4 0.1, bp 10 150 6 False 0 0.15] 5 = Inr 0.125"
proof -
  let ?ex = "[bp 0 300 10 True 0.4 0.1, bp 10 150 6 False 0 0.15]"
  have inc: "increasing ?ex" by (simp add: increasing_def)
  have i: "0 + 1 < length ?ex" by simp
  have lo: "Time (?ex ! 0) < 5" and hi: "5 < Time (?ex ! (0 + 1))" by simp_all
  show ?thesis
    using inc interior_linear_interpolation [OF inc i lo hi] by simp
qed

text \<open>
  C3, as stated, at two breakpoints that share the time 5 with frequencies 100 and 200:
  \<open>t = 5\<close> is at the last breakpoint's time, and the frequency returned is not the last
  breakpoint's, because the clamp at the first breakpoint is tested first.
\<close>

theorem clamp_last_counterexample:
  "[bp 5 100 0 False 0 1, bp 5 200 0 False 0 1] \<noteq> []
   \<and> Time ([bp 5 100 0 False 0 1, bp 5 200 0 False 0 1] ! (length [bp 5 100 0 False 0 1, bp 5 200 0 False 0 1] - 1)) \<le> 5
   \<and> createFreqFunc [bp 5 100 0 False 0 1, bp 5 200 0 False 0 1] 5 = Inr 100
   \<and> Frequency ([bp 5 100 0 False 0 1, bp 5 200 0 False 0 1] ! (length [bp 5 100 0 False 0 1, bp 5 200 0 False 0 1] - 1)) = 200"
  by (simp add: createFreqFunc_def index_def)

text \<open>
  C3, amended. For every non-empty breakpoint sequence and every real \<open>t\<close>: if \<open>t\<close> is at
  or below the first breakpoint's time, the frequency, beat frequency and tone volume
  query functions return the first breakpoint's field; if \<open>t\<close> is at or above the last
  breakpoint's time and strictly above the first breakpoint's time, they return the last
  breakpoint's field; and the four query functions return a value for every \<open>t\<close>.
\<close>

theorem clamp_outside_range:
  assumes "changes \<noteq> []"
  shows "(t \<le> Time (changes ! 0) \<longrightarrow>
            createFreqFunc changes t = Inr (Frequency (changes ! 0)) \<and>
            createBeatFreqFunc changes t = Inr (BeatFrequency (changes ! 0)) \<and>
            createVolumeFunc changes t = Inr (ToneVolume (changes ! 0)))
       \<and> (Time (changes ! 0) < t \<and> Time (changes ! (length changes - 1)) \<le> t \<longrightarrow>
            createFreqFunc changes t = Inr (Frequency (changes ! (length changes - 1))) \<and>
            createBeatFreqFunc changes t = Inr (BeatFrequency (changes ! (length changes - 1))) \<and>
            createVolumeFunc changes t = Inr (ToneVolume (changes ! (length changes - 1))))
       \<and> (\<exists>y. createFreqFunc changes t = Inr y) \<and> (\<exists>y. createBeatFreqFunc changes t = Inr y)
       \<and> (\<exists>y. createVolumeFunc changes t = Inr y) \<and> (\<exists>y. createPinkNoiseFunc changes t = Inr y)"
  using queries_first [OF assms, of t] queries_last [OF assms, of t] queries_total [of changes t]
  by (simp add: queriesReturn_def)

theorem clamp_outside_range_witness:
  "[bp 0 300 10 True 0.4 0.1, bp 10 150 6 False 0 0.15] \<noteq> []
   \<and> createFreqFunc [bp 0 300 10 True 0.4 0.1, bp 10 150 6 False 0 0.15] (- 1) = Inr 300
   \<and> createBeatFreqFunc [bp 0 300 10 True 0.4 0.1, bp 10 150 6 False 0 0.15] (- 1) = Inr 10
   \<and> createVolumeFunc [bp 0 300 10 True 0.4 0.1, bp 10 150 6 False 0 0.15] (- 1) = Inr 0.1
   \<and> createFreqFunc [bp 0 300 10 True 0.4 0.1, bp 10 150 6 False 0 0.15] 20 = Inr 150
   \<and> createBeatFreqFunc [bp 0 300 10 True 0.4 0.1, bp 10 150 6 False 0 0.15] 20 = Inr 6
   \<and> createVolumeFunc [bp 0 300 10 True 0.4 0.1, bp 10 150 6 False 0 0.15] 20 = Inr 0.15"
proof -
  let ?ex = "[bp 0 300 10 True 0.4 0.1, bp 10 150 6 False 0 0.15]"
  have ne: "?ex \<noteq> []" by simp
  show ?thesis
    using ne clamp_outside_range [OF ne, of "- 1"] clamp_outside_range [OF ne, of 20] by simp
qed

text \<open>
  C4. For a non-empty breakpoint sequence with strictly increasing times the noise query
  is a step function: for \<open>t\<close> in \<open>[time_i, time_{i+1})\<close> it returns the pair
  \<open>(noiseOn, noiseVolume)\<close> of breakpoint \<open>i\<close> as it is; at or below the first time it
  returns the first breakpoint's pair and at or above the last time the last one's.
\<close>

theorem noise_step_function:
  assumes "increasing changes" and "changes \<noteq> []"
  shows "(\<forall>i. i + 1 < length changes \<and> Time (changes ! i) \<le> t \<and> t < Time (changes ! (i + 1)) \<longrightarrow>
            createPinkNoiseFunc changes t = Inr (PinkNoiseOn (changes ! i), PinkNoiseVolume (changes ! i)))
       \<and> (t \<le> Time (changes ! 0) \<longrightarrow>
            createPinkNoiseFunc changes t = Inr (PinkNoiseOn (changes ! 0), PinkNoiseVolume (changes ! 0)))
       \<and> (Time (changes ! (length changes - 1)) \<le> t \<longrightarrow>
            createPinkNoiseFunc changes t =
              Inr (PinkNoiseOn (changes ! (length changes - 1)), PinkNoiseVolume (changes ! (length changes - 1))))"
proof (intro conjI allI impI)
  have nd: "nondecreasing changes" using assms(1) by (rule increasing_nondecreasing)
  show "createPinkNoiseFunc changes t = Inr (PinkNoiseOn (changes ! i), PinkNoiseVolume (changes ! i))"
    if h: "i + 1 < length changes \<and> Time (changes ! i) \<le> t \<and> t < Time (changes ! (i + 1))" for i
  proof (cases "i = 0 \<and> t = Time (changes ! 0)")
    case True
    with queries_first [OF assms(2), of t] show ?thesis by (simp add: queriesReturn_def)
  next
    case False
    have "Time (changes ! 0) < t"
    proof (cases "i = 0")
      case True
      with False h show ?thesis by simp
    next
      case False
      with assms(1) h have "Time (changes ! 0) < Time (changes ! i)"
        by (intro increasing_nth) simp_all
      with h show ?thesis by simp
    qed
    with queries_interval [OF nd, of i t] h show ?thesis by (simp add: queriesInterpolate_def)
  qed
  show "createPinkNoiseFunc changes t = Inr (PinkNoiseOn (changes ! 0), PinkNoiseVolume (changes ! 0))"
    if "t \<le> Time (changes ! 0)"
    using queries_first [OF assms(2) that] by (simp add: queriesReturn_def)
  show "createPinkNoiseFunc changes t =
      Inr (PinkNoiseOn (changes ! (length changes - 1)), PinkNoiseVolume (changes ! (length changes - 1)))"
    if h: "Time (changes ! (length changes - 1)) \<le> t"
  proof (cases "length changes = 1")
    case True
    then show ?thesis
      using queries_first [OF assms(2), of t] queries_last [OF assms(2), of t] h
      by (cases "t \<le> Time (changes ! 0)") (simp_all add: queriesReturn_def)
  next
    case False
    with assms(2) have "0 < length changes - 1" by (cases changes) auto
    with assms(1) have "Time (changes ! 0) < Time (changes ! (length changes - 1))"
      by (intro increasing_nth) simp_all
    with h have "Time (changes ! 0) < t" by simp
    from queries_last [OF assms(2) this h] show ?thesis by (simp add: queriesReturn_def)
  qed
qed

theorem noise_step_function_witness:
  "increasing [bp 0 300 10 True 0.4 0.1, bp 10 150 6 False 0 0.15]
   \<and> [bp 0 300 10 True 0.4 0.1, bp 10 150 6 False 0 0.15] \<noteq> []
   \<and> createPinkNoiseFunc [bp 0 300 10 True 0.4 0.1, bp 10 150 6 False 0 0.15] 0 = Inr (True, 0.4)
   \<and> createPinkNoiseFunc [bp 0 300 10 True 0.4 0.1, bp 10 150 6 False 0 0.15] 9.99 = Inr (True, 0.4)
   \<and> createPinkNoiseFunc [bp 0 300 10 True 0.4 0.1, bp 10 150 6 False 0 0.15] 10 = Inr (False, 0)
   \<and> createPinkNoiseFunc [bp 0 300 10 True 0.4 0.1, bp 10 150 6 False 0 0.15] (- 3) = Inr (True, 0.4)"
proof -
  let ?ex = "[bp 0 300 10 True 0.4 0.1, bp 10 150 6 False 0 0.15]"
  have inc: "increasing ?ex" by (simp add: increasing_def)
  have ne: "?ex \<noteq> []" by simp
  note th = noise_step_function [OF inc ne]
  from th [of 0, THEN conjunct1, rule_format, of 0]
  have a: "createPinkNoiseFunc ?ex 0 = Inr (True, 0.4)" by simp
  from th [of "9.99", THEN conjunct1, rule_format, of 0]
  have b: "createPinkNoiseFunc ?ex 9.99 = Inr (True, 0.4)" by simp
  from th [of 10] have c: "createPinkNoiseFunc ?ex 10 = Inr (False, 0)" by simp
  from th [of "- 3"] have d: "createPinkNoiseFunc ?ex (- 3) = Inr (True, 0.4)" by simp
  from inc ne a b c d show ?thesis by simp
qed

text \<open>
  C5. For a breakpoint sequence in which two consecutive breakpoints have the same time,
  every query function returns a value at every \<open>t\<close>, and so does every loop from
  every start index: no evaluation reaches a division by zero. Whenever the guard of the
  interpolation branch holds at an index \<open>k\<close>, the divisor \<open>time_{k+1} - time_k\<close> is
  strictly positive and the division is an ordinary quotient.
\<close>

theorem no_division_by_zero:
  assumes "i + 1 < length changes" and "Time (changes ! i) = Time (changes ! (i + 1))"
  shows "(\<exists>y. createFreqFunc changes t = Inr y) \<and> (\<exists>y. createBeatFreqFunc changes t = Inr y)
       \<and> (\<exists>y. createVolumeFunc changes t = Inr y) \<and> (\<exists>y. createPinkNoiseFunc changes t = Inr y)
       \<and> (\<forall>k. \<exists>y. createFreqFunc_loop changes t k = Inr y)
       \<and> (\<forall>k. \<exists>y. createBeatFreqFunc_loop changes t k = Inr y)
       \<and> (\<forall>k. \<exists>y. createVolumeFunc_loop changes t k = Inr y)
       \<and> (\<forall>k x. Time (changes ! k) \<le> t \<and> t < Time (changes ! (k + 1)) \<longrightarrow>
             0 < Time (changes ! (k + 1)) - Time (changes ! k)
             \<and> fdiv x (Time (changes ! (k + 1)) - Time (changes ! k))
                 = Inr (x / (Time (changes ! (k + 1)) - Time (changes ! k))))"
proof -
  from assms(1) have ne: "changes \<noteq> []" by auto
  have loops: "\<exists>y. scan_loop (lerp fld) fld changes t k = Inr y" for fld k
    by (rule scan_loop_total) (rule lerp_total)
  have div: "0 < Time (changes ! (k + 1)) - Time (changes ! k)
             \<and> fdiv x (Time (changes ! (k + 1)) - Time (changes ! k))
                 = Inr (x / (Time (changes ! (k + 1)) - Time (changes ! k)))"
    if "Time (changes ! k) \<le> t \<and> t < Time (changes ! (k + 1))" for k x
    using that by (simp add: fdiv_def)
  from queries_total [of changes t] loops div show ?thesis
    by (simp add: freq_loop_scan [OF ne] beat_loop_scan [OF ne] vol_loop_scan [OF ne])
qed

theorem no_division_by_zero_witness:
  "1 + 1 < length [bp 0 100 1 False 0 1, bp 5 200 2 False 0 1, bp 5 300 3 False 0 1, bp 10 400 4 False 0 1]
   \<and> Time ([bp 0 100 1 False 0 1, bp 5 200 2 False 0 1, bp 5 300 3 False 0 1, bp 10 400 4 False 0 1] ! 1)
     = Time ([bp 0 100 1 False 0 1, bp 5 200 2 False 0 1, bp 5 300 3 False 0 1, bp 10 400 4 False 0 1] ! (1 + 1))
   \<and> (\<exists>y. createFreqFunc [bp 0 100 1 False 0 1, bp 5 200 2 False 0 1, bp 5 300 3 False 0 1, bp 10 400 4 False 0 1] 5 = Inr y)
   \<and> createFreqFunc [bp 0 100 1 False 0 1, bp 5 200 2 False 0 1, bp 5 300 3 False 0 1, bp 10 400 4 False 0 1] 5 = Inr 300"
proof -
  let ?ex = "[bp 0 100 1 False 0 1, bp 5 200 2 False 0 1, bp 5 300 3 False 0 1, bp 10 400 4 False 0 1]"
  have i: "1 + 1 < length ?ex" by simp
  have dup: "Time (?ex ! 1) = Time (?ex ! (1 + 1))" by simp
  have v: "createFreqFunc ?ex 5 = Inr 300"
    by (simp add: createFreqFunc_def createFreqFunc_loop.simps index_def fdiv_def)
  from i dup v no_division_by_zero [OF i dup, of 5] show ?thesis by simp
qed

text \<open>
  C6, as stated, at three breakpoints of which the first two share the time 0: at
  \<open>t = 0\<close> the frequency is the one of the earlier breakpoint (100), not the one of the
  later breakpoint (200).
\<close>

theorem duplicate_at_first_counterexample:
  "Time ([bp 0 100 1 False 0 1, bp 0 200 2 False 0 1, bp 10 300 3 False 0 1] ! 0)
     = Time ([bp 0 100 1 False 0 1, bp 0 200 2 False 0 1, bp 10 300 3 False 0 1] ! 1)
   \<and> createFreqFunc [bp 0 100 1 False 0 1, bp 0 200 2 False 0 1, bp 10 300 3 False 0 1]
        (Time ([bp 0 100 1 False 0 1, bp 0 200 2 False 0 1, bp 10 300 3 False 0 1] ! 1)) = Inr 100
   \<and> Frequency ([bp 0 100 1 False 0 1, bp 0 200 2 False 0 1, bp 10 300 3 False 0 1] ! 1) = 200"
  by (simp add: createFreqFunc_def index_def)

text \<open>
  C6, amended. For a breakpoint sequence with non-decreasing times in which the
  breakpoints \<open>i\<close> and \<open>i + 1\<close> share the time \<open>T\<close>: when \<open>T\<close> is the first breakpoint's
  time, the query functions return the first breakpoint's values at \<open>t = T\<close>; when \<open>T\<close>
  is strictly later than the first breakpoint's time and the next breakpoint, if there is
  one, is strictly later than \<open>T\<close>, they return the values of the later breakpoint
  \<open>i + 1\<close> at \<open>t = T\<close>; for \<open>t\<close> strictly between \<open>T\<close> and the next breakpoint's time
  the linear functions interpolate from breakpoint \<open>i + 1\<close> to breakpoint \<open>i + 2\<close> and
  the noise function holds the pair of breakpoint \<open>i + 1\<close>; for \<open>t\<close> above \<open>T\<close> when
  breakpoint \<open>i + 1\<close> is the last, they return its values; for \<open>t\<close> below \<open>T\<close>, inside the
  preceding interval and strictly above the first breakpoint's time, the linear functions
  interpolate from breakpoint \<open>i - 1\<close> towards the earlier breakpoint \<open>i\<close> and the noise
  function holds the pair of breakpoint \<open>i - 1\<close>; and with no preceding breakpoint they
  return the values of breakpoint 0.
\<close>

theorem duplicate_time_tie_break:
  assumes nd: "nondecreasing changes" and i: "i + 1 < length changes"
    and ti: "Time (changes ! i) = T" and tj: "Time (changes ! (i + 1)) = T"
  shows "(Time (changes ! 0) = T \<longrightarrow> queriesReturn changes T (changes ! 0))
       \<and> (Time (changes ! 0) < T \<and> (i + 2 < length changes \<longrightarrow> T < Time (changes ! (i + 2))) \<longrightarrow>
            queriesReturn changes T (changes ! (i + 1)))
       \<and> (i + 2 < length changes \<and> T < t \<and> t < Time (changes ! (i + 2)) \<longrightarrow>
            queriesInterpolate changes t (changes ! (i + 1)) (changes ! (i + 2)))
       \<and> (i + 2 = length changes \<and> T < t \<longrightarrow> queriesReturn changes t (changes ! (i + 1)))
       \<and> (0 < i \<and> Time (changes ! 0) < t \<and> Time (changes ! (i - 1)) \<le> t \<and> t < T \<longrightarrow>
            queriesInterpolate changes t (changes ! (i - 1)) (changes ! i))
       \<and> (i = 0 \<and> t < T \<longrightarrow> queriesReturn changes t (changes ! 0))"
proof (intro conjI impI)
  from i have ne: "changes \<noteq> []" by auto
  have first_le: "Time (changes ! 0) \<le> T"
    using nondecreasing_nth [OF nd, of 0 i] i ti by simp
  show "queriesReturn changes T (changes ! 0)" if "Time (changes ! 0) = T"
    using queries_first [OF ne, of T] that by simp
  show "queriesReturn changes T (changes ! (i + 1))"
    if h: "Time (changes ! 0) < T \<and> (i + 2 < length changes \<longrightarrow> T < Time (changes ! (i + 2)))"
  proof (cases "i + 2 < length changes")
    case True
    with h have hi: "T < Time (changes ! (i + 1 + 1))" by (simp add: add.assoc)
    from True have j: "i + 1 + 1 < length changes" by simp
    from tj have lo: "Time (changes ! (i + 1)) \<le> T" by simp
    from h have f: "Time (changes ! 0) < T" by simp
    from queries_interval [OF nd j lo hi f] tj show ?thesis
      by (simp add: queriesInterpolate_def queriesReturn_def linearValue_def)
  next
    case False
    with i have last: "length changes - 1 = i + 1" by arith
    from queries_last [OF ne, of T] h tj last show ?thesis by simp
  qed
  show "queriesInterpolate changes t (changes ! (i + 1)) (changes ! (i + 2))"
    if h: "i + 2 < length changes \<and> T < t \<and> t < Time (changes ! (i + 2))"
  proof -
    from h have j: "i + 1 + 1 < length changes" by simp
    from h tj have lo: "Time (changes ! (i + 1)) \<le> t" by simp
    from h have hi: "t < Time (changes ! (i + 1 + 1))" by (simp add: add.assoc)
    from h first_le have f: "Time (changes ! 0) < t" by simp
    from queries_interval [OF nd j lo hi f] show ?thesis by (simp add: add.assoc)
  qed
  show "queriesReturn changes t (changes ! (i + 1))" if h: "i + 2 = length changes \<and> T < t"
  proof -
    from h have last: "length changes - 1 = i + 1" by arith
    from h first_le have f: "Time (changes ! 0) < t" by simp
    from queries_last [OF ne f] h tj last show ?thesis by simp
  qed
  show "queriesInterpolate changes t (changes ! (i - 1)) (changes ! i)"
    if h: "0 < i \<and> Time (changes ! 0) < t \<and> Time (changes ! (i - 1)) \<le> t \<and> t < T"
  proof -
    from h i have j: "(i - 1) + 1 < length changes" by simp
    from h have eq: "i - 1 + 1 = i" by simp
    from h ti have hi: "t < Time (changes ! (i - 1 + 1))" by (simp add: eq)
    from h have lo: "Time (changes ! (i - 1)) \<le> t" and f: "Time (changes ! 0) < t" by simp_all
    from queries_interval [OF nd j lo hi f] h show ?thesis by simp
  qed
  show "queriesReturn changes t (changes ! 0)" if h: "i = 0 \<and> t < T"
    using queries_first [OF ne, of t] h ti by simp
qed

theorem duplicate_time_tie_break_witness:
  "nondecreasing dupMiddle \<and> 1 + 1 < length dupMiddle
   \<and> Time (dupMiddle ! 1) = 5 \<and> Time (dupMiddle ! (1 + 1)) = 5
   \<and> createFreqFunc dupMiddle 5 = Inr 300 \<and> createPinkNoiseFunc dupMiddle 5 = Inr (True, 0.3)
   \<and> createFreqFunc dupMiddle 7 = Inr 340 \<and> createPinkNoiseFunc dupMiddle 7 = Inr (True, 0.3)
   \<and> createFreqFunc dupMiddle 3 = Inr 160 \<and> createPinkNoiseFunc dupMiddle 3 = Inr (True, 0.1)
   \<and> nondecreasing dupFirst \<and> 0 + 1 < length dupFirst
   \<and> Time (dupFirst ! 0) = 0 \<and> Time (dupFirst ! (0 + 1)) = 0
   \<and> createFreqFunc dupFirst 0 = Inr 100 \<and> createPinkNoiseFunc dupFirst 0 = Inr (True, 0.1)
   \<and> createFreqFunc dupFirst (- 1) = Inr 100
   \<and> nondecreasing dupLast \<and> 1 + 1 < length dupLast
   \<and> Time (dupLast ! 1) = 5 \<and> Time (dupLast ! (1 + 1)) = 5
   \<and> createFreqFunc dupLast 8 = Inr 300 \<and> createPinkNoiseFunc dupLast 8 = Inr (True, 0.3)"
proof -
  have m: "nondecreasing dupMiddle" "1 + 1 < length dupMiddle"
    "Time (dupMiddle ! 1) = 5" "Time (dupMiddle ! (1 + 1)) = 5"
    by (simp_all add: dupMiddle_def nondecreasing_def)
  have f: "nondecreasing dupFirst" "0 + 1 < length dupFirst"
    "Time (dupFirst ! 0) = 0" "Time (dupFirst ! (0 + 1)) = 0"
    by (simp_all add: dupFirst_def nondecreasing_def)
  have l: "nondecreasing dupLast" "1 + 1 < length dupLast"
    "Time (dupLast ! 1) = 5" "Time (dupLast ! (1 + 1)) = 5"
    by (simp_all add: dupLast_def nondecreasing_def)
  have m5: "createFreqFunc dupMiddle 5 = Inr 300 \<and> createPinkNoiseFunc dupMiddle 5 = Inr (True, 0.3)"
    using duplicate_time_tie_break [OF m, of 5]
    by (simp add: queriesReturn_def queriesInterpolate_def linearValue_def dupMiddle_def)
  have m7: "createFreqFunc dupMiddle 7 = Inr 340 \<and> createPinkNoiseFunc dupMiddle 7 = Inr (True, 0.3)"
    using duplicate_time_tie_break [OF m, of 7]
    by (simp add: queriesReturn_def queriesInterpolate_def linearValue_def dupMiddle_def)
  have m3: "createFreqFunc dupMiddle 3 = Inr 160 \<and> createPinkNoiseFunc dupMiddle 3 = Inr (True, 0.1)"
    using duplicate_time_tie_break [OF m, of 3]
    by (simp add: queriesReturn_def queriesInterpolate_def linearValue_def dupMiddle_def)
  have f0: "createFreqFunc dupFirst 0 = Inr 100 \<and> createPinkNoiseFunc dupFirst 0 = Inr (True, 0.1)"
    using duplicate_time_tie_break [OF f, of 0]
    by (simp add: queriesReturn_def queriesInterpolate_def linearValue_def dupFirst_def)
  have f1: "createFreqFunc dupFirst (- 1) = Inr 100"
    using duplicate_time_tie_break [OF f, of "- 1"]
    by (simp add: queriesReturn_def queriesInterpolate_def linearValue_def dupFirst_def)
  have l8: "createFreqFunc dupLast 8 = Inr 300 \<and> createPinkNoiseFunc dupLast 8 = Inr (True, 0.3)"
    using duplicate_time_tie_break [OF l, of 8]
    by (simp add: queriesReturn_def queriesInterpolate_def linearValue_def dupLast_def)
  from m f l m5 m7 m3 f0 f1 l8 show ?thesis by simp
qed

section \<open>Claims about the streams\<close>

text \<open>
  C1. For an oscillator with a non-zero sample rate \<open>R\<close> whose frequency and volume
  closures return \<open>frequencyAt t\<close> and \<open>volumeAt t\<close>, a call of \<open>Stream\<close> on a buffer
  returns its length and \<open>true\<close>, and the \<open>n\<close>-th frame receives, added to the
  oscillator's channel, \<open>sin(phase) * volumeAt(t) * 0.5\<close> with \<open>t\<close> the position of the
  sample divided by \<open>R\<close> and \<open>phase\<close> the phase the call started with plus every
  \<open>deltaPhase = 2 * pi * frequencyAt(t) / R\<close> up to and including this sample's. The
  phase the call leaves in the oscillator is the starting phase plus all increments, and
  the position is advanced by the length, so the next call continues from there: the
  phase is never reset or wrapped. The left oscillator's frequency closure is the
  schedule's frequency, the right one's is frequency plus beat frequency, and both use
  the schedule's tone volume.
\<close>

theorem oscillator_phase_accumulation:
  assumes "VariableTone.sr vt \<noteq> 0"
    and "\<forall>t. freqFunc vt t = Inr (frequencyAt t)"
    and "\<forall>t. VariableTone.volumeFunc vt t = Inr (volumeAt t)"
  shows "(\<exists>out. VariableTone_Stream vt samples =
            Inr (out, int (length samples), True,
                 vt\<lparr>phase := phase vt + (\<Sum>k<length samples.
                                 deltaPhaseAt frequencyAt (VariableTone.sr vt) (VariableTone.pos vt) k),
                    VariableTone.pos := VariableTone.pos vt + int (length samples)\<rparr>)
          \<and> length out = length samples
          \<and> (\<forall>n<length samples. out ! n = addToChannel (channel vt) (samples ! n)
                (sin (phaseAfter frequencyAt (VariableTone.sr vt) (VariableTone.pos vt) (phase vt) n)
                   * volumeAt (sampleTime (VariableTone.sr vt) (VariableTone.pos vt) n) * 0.5)))
       \<and> deltaPhaseAt frequencyAt (VariableTone.sr vt) (VariableTone.pos vt) n
           = 2 * pi * frequencyAt (of_int (VariableTone.pos vt + int n) / of_int (VariableTone.sr vt))
               / of_int (VariableTone.sr vt)
       \<and> phaseAfter frequencyAt (VariableTone.sr vt) (VariableTone.pos vt) (phase vt) (Suc n)
           = phaseAfter frequencyAt (VariableTone.sr vt) (VariableTone.pos vt) (phase vt) n
             + deltaPhaseAt frequencyAt (VariableTone.sr vt) (VariableTone.pos vt) (Suc n)
       \<and> phaseAfter frequencyAt (VariableTone.sr vt) (VariableTone.pos vt) (phase vt) 0
           = phase vt + deltaPhaseAt frequencyAt (VariableTone.sr vt) (VariableTone.pos vt) 0
       \<and> freqFunc (leftTone changes) t = createFreqFunc changes t
       \<and> (\<exists>base beat. createFreqFunc changes t = Inr base \<and> createBeatFreqFunc changes t = Inr beat
             \<and> freqFunc (rightTone changes) t = Inr (base + beat))
       \<and> VariableTone.volumeFunc (leftTone changes) t = createVolumeFunc changes t
       \<and> VariableTone.volumeFunc (rightTone changes) t = createVolumeFunc changes t"
proof -
  from VariableTone_loop_closed [OF assms, of samples] obtain out where
    "VariableTone_Stream_loop vt samples =
           Inr (out, vt\<lparr>phase := phase vt + (\<Sum>k<length samples. deltaPhaseAt frequencyAt (VariableTone.sr vt) (VariableTone.pos vt) k),
                        VariableTone.pos := VariableTone.pos vt + int (length samples)\<rparr>)"
    and "length out = length samples"
    and "\<forall>n<length samples. out ! n = addToChannel (channel vt) (samples ! n)
               (sin (phaseAfter frequencyAt (VariableTone.sr vt) (VariableTone.pos vt) (phase vt) n)
                  * volumeAt (sampleTime (VariableTone.sr vt) (VariableTone.pos vt) n) * 0.5)"
    by blast
  then have stream: "\<exists>out. VariableTone_Stream vt samples =
            Inr (out, int (length samples), True,
                 vt\<lparr>phase := phase vt + (\<Sum>k<length samples.
                                 deltaPhaseAt frequencyAt (VariableTone.sr vt) (VariableTone.pos vt) k),
                    VariableTone.pos := VariableTone.pos vt + int (length samples)\<rparr>)
          \<and> length out = length samples
          \<and> (\<forall>n<length samples. out ! n = addToChannel (channel vt) (samples ! n)
                (sin (phaseAfter frequencyAt (VariableTone.sr vt) (VariableTone.pos vt) (phase vt) n)
                   * volumeAt (sampleTime (VariableTone.sr vt) (VariableTone.pos vt) n) * 0.5))"
    by (simp add: VariableTone_Stream_def)
  have right: "\<exists>base beat. createFreqFunc changes t = Inr base \<and> createBeatFreqFunc changes t = Inr beat
             \<and> freqFunc (rightTone changes) t = Inr (base + beat)"
    using freqFuncRight_total [of changes t] by (simp add: rightTone_def)
  have rest: "deltaPhaseAt frequencyAt (VariableTone.sr vt) (VariableTone.pos vt) n
           = 2 * pi * frequencyAt (of_int (VariableTone.pos vt + int n) / of_int (VariableTone.sr vt))
               / of_int (VariableTone.sr vt)"
    "phaseAfter frequencyAt (VariableTone.sr vt) (VariableTone.pos vt) (phase vt) (Suc n)
           = phaseAfter frequencyAt (VariableTone.sr vt) (VariableTone.pos vt) (phase vt) n
             + deltaPhaseAt frequencyAt (VariableTone.sr vt) (VariableTone.pos vt) (Suc n)"
    "phaseAfter frequencyAt (VariableTone.sr vt) (VariableTone.pos vt) (phase vt) 0
           = phase vt + deltaPhaseAt frequencyAt (VariableTone.sr vt) (VariableTone.pos vt) 0"
    "freqFunc (leftTone changes) t = createFreqFunc changes t"
    "VariableTone.volumeFunc (leftTone changes) t = createVolumeFunc changes t"
    "VariableTone.volumeFunc (rightTone changes) t = createVolumeFunc changes t"
    by (simp_all add: deltaPhaseAt_def sampleTime_def phaseAfter_def leftTone_def rightTone_def freqFuncLeft_def)
  from stream right rest show ?thesis by blast
qed

theorem oscillator_phase_accumulation_witness:
  "VariableTone.sr (rightTone scenario) \<noteq> 0
   \<and> (\<forall>t. freqFunc (rightTone scenario) t = Inr (valueOf (freqFuncRight scenario t)))
   \<and> (\<forall>t. VariableTone.volumeFunc (rightTone scenario) t = Inr (valueOf (createVolumeFunc scenario t)))
   \<and> frames (VariableTone_Stream (rightTone scenario) [(0, 0), (0, 0)])
       = Inr [(0, sin (2 * pi * 310 / 44100) * 0.1 * 0.5),
              (0, sin (2 * pi * 310 / 44100
                       + 2 * pi * (300 - 150 / 441000 + (10 - 4 / 441000)) / 44100)
                    * (0.1 + 0.05 / 441000) * 0.5)]"
proof -
  let ?vt = "rightTone scenario"
  have sr: "VariableTone.sr ?vt \<noteq> 0" by (simp add: rightTone_def)
  have f: "\<forall>t. freqFunc ?vt t = Inr (valueOf (freqFuncRight scenario t))"
  proof
    fix t
    from freqFuncRight_total [of scenario t] have "\<exists>y. freqFuncRight scenario t = Inr y" by blast
    then show "freqFunc ?vt t = Inr (valueOf (freqFuncRight scenario t))"
      unfolding rightTone_def by (simp add: Inr_valueOf [symmetric])
  qed
  have v: "\<forall>t. VariableTone.volumeFunc ?vt t = Inr (valueOf (createVolumeFunc scenario t))"
  proof
    fix t
    from queries_total [of scenario t] have "\<exists>y. createVolumeFunc scenario t = Inr y" by blast
    then show "VariableTone.volumeFunc ?vt t = Inr (valueOf (createVolumeFunc scenario t))"
      unfolding rightTone_def by (simp add: Inr_valueOf [symmetric])
  qed
  have t1: "sampleTime 44100 0 (Suc 0) = 1 / 44100" and t0: "sampleTime 44100 0 0 = 0"
    by (simp_all add: sampleTime_def)
  have f0: "freqFuncRight scenario 0 = Inr 310" 
    by (simp add: freqFuncRight_def createFreqFunc_def createBeatFreqFunc_def index_def scenario_def)
  have f1: "freqFuncRight scenario (1 / 44100) = Inr (300 - 150 / 441000 + (10 - 4 / 441000))"
    by (simp add: freqFuncRight_def createFreqFunc_def createBeatFreqFunc_def index_def scenario_def
         createFreqFunc_loop.simps createBeatFreqFunc_loop.simps fdiv_def)
  have v0: "createVolumeFunc scenario 0 = Inr 0.1"
    by (simp add: createVolumeFunc_def index_def scenario_def)
  have v1: "createVolumeFunc scenario (1 / 44100) = Inr (0.1 + 0.05 / 441000)"
    by (simp add: createVolumeFunc_def index_def scenario_def createVolumeFunc_loop.simps fdiv_def)
  from oscillator_phase_accumulation [OF sr f v, of "[(0, 0), (0, 0)]"]
  obtain out where
    run: "VariableTone_Stream ?vt [(0, 0), (0, 0)] =
            Inr (out, int (length [(0::real, 0::real), (0, 0)]), True,
                 ?vt\<lparr>phase := phase ?vt + (\<Sum>k<length [(0::real, 0::real), (0, 0)].
                                 deltaPhaseAt (\<lambda>t. valueOf (freqFuncRight scenario t)) (VariableTone.sr ?vt) (VariableTone.pos ?vt) k),
                    VariableTone.pos := VariableTone.pos ?vt + int (length [(0::real, 0::real), (0, 0)])\<rparr>)"
    and len: "length out = length [(0::real, 0::real), (0, 0)]"
    and nth: "\<forall>n<length [(0::real, 0::real), (0, 0)]. out ! n = addToChannel (channel ?vt) ([(0, 0), (0, 0)] ! n)
                (sin (phaseAfter (\<lambda>t. valueOf (freqFuncRight scenario t)) (VariableTone.sr ?vt) (VariableTone.pos ?vt) (phase ?vt) n)
                   * valueOf (createVolumeFunc scenario (sampleTime (VariableTone.sr ?vt) (VariableTone.pos ?vt) n)) * 0.5)"
    by blast
  from len obtain a b where out: "out = [a, b]"
    by (cases out; cases "tl out") auto
  from nth [rule_format, of 0] have a: "a = (0, sin (2 * pi * 310 / 44100) * 0.1 * 0.5)"
    by (simp add: out rightTone_def addToChannel_def phaseAfter_def deltaPhaseAt_def t0 f0 v0)
  from nth [rule_format, of 1] have b: "b = (0, sin (2 * pi * 310 / 44100
                       + 2 * pi * (300 - 150 / 441000 + (10 - 4 / 441000)) / 44100)
                    * (0.1 + 0.05 / 441000) * 0.5)"
    by (simp add: out rightTone_def addToChannel_def phaseAfter_def deltaPhaseAt_def t0 t1 f0 f1 v0 v1)
  from run out a b have "frames (VariableTone_Stream ?vt [(0, 0), (0, 0)]) = Inr [(0, sin (2 * pi * 310 / 44100) * 0.1 * 0.5),
              (0, sin (2 * pi * 310 / 44100
                       + 2 * pi * (300 - 150 / 441000 + (10 - 4 / 441000)) / 44100)
                    * (0.1 + 0.05 / 441000) * 0.5)]"
    by (simp add: frames_def)
  with sr f v show ?thesis by blast
qed

text \<open>
  C7, as stated, at the end-to-end scenario of the specification: the first sample of
  the left oscillator is \<open>sin(2 * pi * 300 / 44100) * 0.1 * 0.5\<close>, which is strictly
  positive.
\<close>

theorem first_sample_counterexample:
  "firstSample (leftTone scenario) = Inr (sin (2 * pi * 300 / 44100) * 0.1 * 0.5)
   \<and> 0 < sin (2 * pi * 300 / 44100) * 0.1 * 0.5"
proof -
  have "freqFunc (leftTone scenario) 0 = Inr 300" "VariableTone.volumeFunc (leftTone scenario) 0 = Inr 0.1"
    by (simp_all add: leftTone_def freqFuncLeft_def createFreqFunc_def createVolumeFunc_def index_def scenario_def)
  from firstSample_value [OF _ _ _ this]
  have "firstSample (leftTone scenario) = Inr (sin (2 * pi * 300 / 44100) * 0.1 * 0.5)"
    by (simp add: leftTone_def)
  moreover have "0 < sin (2 * pi * 300 / 44100)"
    by (intro sin_gt_zero) (simp_all add: field_simps)
  ultimately show ?thesis by simp
qed

text \<open>
  C7, amended. For every schedule, the first sample of each oscillator (position 0) is
  \<open>sin(2 * pi * frequencyAt(0) / 44100) * toneVolume(0) * 0.5\<close>, because the phase is
  advanced by the first \<open>deltaPhase\<close> before the sine is taken; \<open>frequencyAt(0)\<close> is the
  frequency at 0 for the left oscillator and frequency plus beat frequency at 0 for the
  right one. The oscillator adds this sample to its own channel of the first frame of the
  buffer it is handed, whatever the frame holds, and leaves the other channel as it is.
  The sample is exactly zero when the tone volume at 0 is zero, and when the oscillator's
  frequency at 0 is zero.
\<close>

theorem first_sample_value:
  "\<exists>f0 b0 v0. createFreqFunc changes 0 = Inr f0 \<and> createBeatFreqFunc changes 0 = Inr b0
      \<and> createVolumeFunc changes 0 = Inr v0
      \<and> firstSample (leftTone changes) = Inr (sin (2 * pi * f0 / 44100) * v0 * 0.5)
      \<and> firstSample (rightTone changes) = Inr (sin (2 * pi * (f0 + b0) / 44100) * v0 * 0.5)
      \<and> (\<exists>out. frames (VariableTone_Stream (leftTone changes) (smp # rest)) = Inr out
            \<and> length out = Suc (length rest)
            \<and> out ! 0 = (fst smp + sin (2 * pi * f0 / 44100) * v0 * 0.5, snd smp))
      \<and> (\<exists>out. frames (VariableTone_Stream (rightTone changes) (smp # rest)) = Inr out
            \<and> length out = Suc (length rest)
            \<and> out ! 0 = (fst smp, snd smp + sin (2 * pi * (f0 + b0) / 44100) * v0 * 0.5))
      \<and> (v0 = 0 \<longrightarrow> firstSample (leftTone changes) = Inr 0 \<and> firstSample (rightTone changes) = Inr 0)
      \<and> (f0 = 0 \<longrightarrow> firstSample (leftTone changes) = Inr 0)
      \<and> (f0 + b0 = 0 \<longrightarrow> firstSample (rightTone changes) = Inr 0)"
proof -
  from queries_total [of changes 0] obtain f0 b0 v0 where
    q: "createFreqFunc changes 0 = Inr f0" "createBeatFreqFunc changes 0 = Inr b0"
       "createVolumeFunc changes 0 = Inr v0"
    by blast
  have l: "firstSample (leftTone changes) = Inr (sin (2 * pi * f0 / 44100) * v0 * 0.5)"
    using firstSample_value [of "leftTone changes" f0 v0] q
    by (simp add: leftTone_def freqFuncLeft_def)
  have r: "firstSample (rightTone changes) = Inr (sin (2 * pi * (f0 + b0) / 44100) * v0 * 0.5)"
    using firstSample_value [of "rightTone changes" "f0 + b0" v0] q
    by (simp add: rightTone_def freqFuncRight_def)
  have fr: "freqFuncRight changes 0 = Inr (f0 + b0)"
    using q by (simp add: freqFuncRight_def)
  have lb: "\<exists>out. frames (VariableTone_Stream (leftTone changes) (smp # rest)) = Inr out
            \<and> length out = Suc (length rest)
            \<and> out ! 0 = (fst smp + sin (2 * pi * f0 / 44100) * v0 * 0.5, snd smp)"
    using tone_first_frame [OF _ _ _ leftTone_closures, of changes smp rest] q
    by (simp add: leftTone_def addToChannel_def)
  have rb: "\<exists>out. frames (VariableTone_Stream (rightTone changes) (smp # rest)) = Inr out
            \<and> length out = Suc (length rest)
            \<and> out ! 0 = (fst smp, snd smp + sin (2 * pi * (f0 + b0) / 44100) * v0 * 0.5)"
    using tone_first_frame [OF _ _ _ rightTone_closures, of changes smp rest] q fr
    by (simp add: rightTone_def addToChannel_def)
  show ?thesis
    apply (rule exI [of _ f0], rule exI [of _ b0], rule exI [of _ v0])
    using lb rb by (simp add: q l r)
qed

theorem first_sample_value_witness:
  "createVolumeFunc silentStart 0 = Inr 0
   \<and> firstSample (leftTone silentStart) = Inr 0 \<and> firstSample (rightTone silentStart) = Inr 0
   \<and> createFreqFunc [bp 0 0 10 True 0.4 0.1] 0 = Inr 0
   \<and> firstSample (leftTone [bp 0 0 10 True 0.4 0.1]) = Inr 0
   \<and> createFreqFunc [bp 0 10 (- 10) True 0.4 0.1] 0 = Inr 10
   \<and> createBeatFreqFunc [bp 0 10 (- 10) True 0.4 0.1] 0 = Inr (- 10)
   \<and> firstSample (rightTone [bp 0 10 (- 10) True 0.4 0.1]) = Inr 0
   \<and> createFreqFunc scenario 0 = Inr 300 \<and> createBeatFreqFunc scenario 0 = Inr 10
   \<and> createVolumeFunc scenario 0 = Inr 0.1
   \<and> (\<exists>out. frames (VariableTone_Stream (leftTone scenario) [(0.7, 0.3)]) = Inr out
         \<and> out ! 0 = (0.7 + sin (2 * pi * 300 / 44100) * 0.1 * 0.5, 0.3))
   \<and> (\<exists>out. frames (VariableTone_Stream (rightTone scenario) [(0.7, 0.3)]) = Inr out
         \<and> out ! 0 = (0.7, 0.3 + sin (2 * pi * 310 / 44100) * 0.1 * 0.5))"
proof -
  have v: "createVolumeFunc silentStart 0 = Inr 0"
    by (simp add: createVolumeFunc_def index_def silentStart_def)
  have f: "createFreqFunc [bp 0 0 10 True 0.4 0.1] 0 = Inr 0"
    by (simp add: createFreqFunc_def index_def)
  have b: "createFreqFunc [bp 0 10 (- 10) True 0.4 0.1] 0 = Inr 10"
    "createBeatFreqFunc [bp 0 10 (- 10) True 0.4 0.1] 0 = Inr (- 10)"
    by (simp_all add: createFreqFunc_def createBeatFreqFunc_def index_def)
  have s: "createFreqFunc scenario 0 = Inr 300" "createBeatFreqFunc scenario 0 = Inr 10"
    "createVolumeFunc scenario 0 = Inr 0.1"
    by (simp_all add: createFreqFunc_def createBeatFreqFunc_def createVolumeFunc_def index_def scenario_def)
  from first_sample_value [of silentStart] v
  have 1: "firstSample (leftTone silentStart) = Inr 0 \<and> firstSample (rightTone silentStart) = Inr 0"
    by auto
  from first_sample_value [of "[bp 0 0 10 True 0.4 0.1]"] f
  have 2: "firstSample (leftTone [bp 0 0 10 True 0.4 0.1]) = Inr 0"
    by auto
  from first_sample_value [of "[bp 0 10 (- 10) True 0.4 0.1]"] b
  have 3: "firstSample (rightTone [bp 0 10 (- 10) True 0.4 0.1]) = Inr 0"
    by auto
  from first_sample_value [of scenario "(0.7, 0.3)" "[]"] obtain f0 b0 v0 where
    q: "createFreqFunc scenario 0 = Inr f0" "createBeatFreqFunc scenario 0 = Inr b0"
      "createVolumeFunc scenario 0 = Inr v0"
    and lf: "\<exists>out. frames (VariableTone_Stream (leftTone scenario) [(0.7, 0.3)]) = Inr out
            \<and> length out = Suc (length ([] :: frame list))
            \<and> out ! 0 = (fst (0.7 :: real, 0.3 :: real) + sin (2 * pi * f0 / 44100) * v0 * 0.5, snd (0.7 :: real, 0.3 :: real))"
    and rf: "\<exists>out. frames (VariableTone_Stream (rightTone scenario) [(0.7, 0.3)]) = Inr out
            \<and> length out = Suc (length ([] :: frame list))
            \<and> out ! 0 = (fst (0.7 :: real, 0.3 :: real), snd (0.7 :: real, 0.3 :: real) + sin (2 * pi * (f0 + b0) / 44100) * v0 * 0.5)"
    by blast
  from q s have e: "f0 = 300" "b0 = 10" "v0 = 0.1" by simp_all
  from lf have 4: "\<exists>out. frames (VariableTone_Stream (leftTone scenario) [(0.7, 0.3)]) = Inr out
         \<and> out ! 0 = (0.7 + sin (2 * pi * 300 / 44100) * 0.1 * 0.5, 0.3)"
    unfolding e by auto
  from rf have 5: "\<exists>out. frames (VariableTone_Stream (rightTone scenario) [(0.7, 0.3)]) = Inr out
         \<and> out ! 0 = (0.7, 0.3 + sin (2 * pi * 310 / 44100) * 0.1 * 0.5)"
    unfolding e by auto
  from v f b s 1 2 3 4 5 show ?thesis by blast
qed

text \<open>
  C8. With the noise on at volume \<open>v\<close>, both channels of a frame are to receive the mono
  pink noise sample scaled by \<open>v * 0.5\<close>. The scenario's gate at position 0, where the
  noise is on with volume 0.4, handed a buffer whose only frame already holds \<open>(1, 0)\<close>:
  with a pink noise sample of 0 the gate writes 0.2 on both channels where the scaled
  sample is 0, and with a pink noise sample of 0.05 it writes 0.21 where the scaled
  sample is 0.01. Handed a frame that holds \<open>(0, 0)\<close>, the same gates write 0 and 0.01.
  \<open>PinkNoise.Stream\<close> adds its sample to the frame and the gate scales what it then finds
  in the left channel.
\<close>

theorem noise_gate_leak:
  "createPinkNoiseFunc scenario (sampleTime 44100 0 0) = Inr (True, 0.4)
   \<and> pinkSamples (NewPinkNoise (constantSource (1 / 2))) 1 = [0]
   \<and> frames (PinkNoiseControl_Stream (pinkNoiseControl scenario (constantSource (1 / 2))) [(1, 0)])
       = Inr [(0.2, 0.2)]
   \<and> frames (PinkNoiseControl_Stream (pinkNoiseControl scenario (constantSource (1 / 2))) [(0, 0)])
       = Inr [(0, 0)]
   \<and> pinkSamples (NewPinkNoise (constantSource (3 / 4))) 1 = [0.05]
   \<and> frames (PinkNoiseControl_Stream (pinkNoiseControl scenario (constantSource (3 / 4))) [(1, 0)])
       = Inr [(0.21, 0.21)]
   \<and> frames (PinkNoiseControl_Stream (pinkNoiseControl scenario (constantSource (3 / 4))) [(0, 0)])
       = Inr [(0.01, 0.01)]"
  by (simp add: PinkNoiseControl_Stream_def pinkNoiseControl_def PinkNoise_Stream_def nextSample_def
        NewPinkNoise_def nextSample_redraw_def Float64_def fdiv_def createPinkNoiseFunc_def index_def
        scenario_def Let_def frames_def sampleTime_def constantSource_def)

text \<open>
  C9. \<open>getTotalPlaybackTime\<close> always returns a value, and it returns 0 exactly for the
  empty breakpoint sequence and for a sequence whose maximum time is 0. \<open>main\<close> stops
  with the fatal error about a zero total playback time exactly when the sequence is
  empty or its maximum time after the stretch is 0, and that check comes before any
  stream is built: \<open>main\<close> gets past it only with a non-empty sequence whose maximum
  stretched time, the total playback time, is not 0.
\<close>

theorem zero_total_is_fatal:
  "(getTotalPlaybackTime changes = Inr 0 \<longleftrightarrow> changes = [] \<or> Max (Time ` set changes) = 0)
   \<and> (\<exists>total. getTotalPlaybackTime changes = Inr total)
   \<and> (main_startup stretchFactor cfg = Inl ZeroPlaybackTime
        \<longleftrightarrow> cfg = [] \<or> Max (Time ` set (stretchTimes stretchFactor cfg)) = 0)
   \<and> (\<forall>started total. main_startup stretchFactor cfg = Inr (started, total) \<longrightarrow>
          cfg \<noteq> [] \<and> started = stretchTimes stretchFactor cfg
          \<and> total = Max (Time ` set started) \<and> total \<noteq> 0)
   \<and> (main_startup stretchFactor cfg = Inl ZeroPlaybackTime
        \<or> (\<exists>started total. main_startup stretchFactor cfg = Inr (started, total)))"
proof -
  have g: "getTotalPlaybackTime changes = Inr 0 \<longleftrightarrow> changes = [] \<or> Max (Time ` set changes) = 0" for changes
    by (cases "changes = []") (simp_all add: getTotalPlaybackTime_empty getTotalPlaybackTime_Max)
  have e: "\<exists>total. getTotalPlaybackTime changes = Inr total"
    by (cases "changes = []") (simp_all add: getTotalPlaybackTime_empty getTotalPlaybackTime_Max)
  let ?st = "stretchTimes stretchFactor cfg"
  have m: "main_startup stretchFactor cfg =
      (if cfg = [] \<or> Max (Time ` set ?st) = 0 then Inl ZeroPlaybackTime
       else Inr (?st, Max (Time ` set ?st)))"
  proof (cases "cfg = []")
    case True
    then show ?thesis by (simp add: main_startup_def stretchTimes_def getTotalPlaybackTime_empty)
  next
    case False
    then have "?st \<noteq> []" by (simp add: stretchTimes_empty)
    from getTotalPlaybackTime_Max [OF this] False show ?thesis
      by (simp add: main_startup_def Let_def)
  qed
  from g [of changes] e m show ?thesis by auto
qed

theorem zero_total_is_fatal_witness:
  "getTotalPlaybackTime [] = Inr 0
   \<and> getTotalPlaybackTime [bp 0 300 10 True 0.4 0.1, bp 0 150 6 False 0 0.15] = Inr 0
   \<and> main_startup 1 [] = Inl ZeroPlaybackTime
   \<and> main_startup 0 scenario = Inl ZeroPlaybackTime
   \<and> main_startup 2 scenario = Inr (stretchTimes 2 scenario, 20)"
proof -
  let ?z = "[bp 0 300 10 True 0.4 0.1, bp 0 150 6 False 0 0.15]"
  have a: "getTotalPlaybackTime [] = Inr 0"
    using zero_total_is_fatal [of "[]" 1 "[]"] by simp
  have b: "getTotalPlaybackTime ?z = Inr 0"
    using zero_total_is_fatal [of ?z 1 "[]"] by simp
  have c: "main_startup 1 [] = Inl ZeroPlaybackTime"
    using zero_total_is_fatal [of "[]" 1 "[]"] by simp
  have d: "main_startup 0 scenario = Inl ZeroPlaybackTime"
    using zero_total_is_fatal [of "[]" 0 scenario] by (simp add: stretchTimes_def scenario_def)
  have "\<not> (scenario = [] \<or> Max (Time ` set (stretchTimes 2 scenario)) = 0)"
    by (simp add: stretchTimes_def scenario_def)
  with zero_total_is_fatal [of "[]" 2 scenario]
  obtain started total where r: "main_startup 2 scenario = Inr (started, total)" by blast
  with zero_total_is_fatal [of "[]" 2 scenario]
  have "started = stretchTimes 2 scenario" "total = Max (Time ` set started)" by blast+
  then have "started = stretchTimes 2 scenario" "total = 20"
    by (simp_all add: stretchTimes_def scenario_def)
  with r have e: "main_startup 2 scenario = Inr (stretchTimes 2 scenario, 20)" by simp
  from a b c d e show ?thesis by simp
qed

text \<open>
  C10. The record the converter marshals has no noise on/off field, so every breakpoint
  the player decodes from a converted configuration has \<open>PinkNoiseOn = false\<close>, with the
  converted noise volume kept as it is. Whatever order the sort of \<open>parseConfig\<close> leaves
  and whatever the stretch factor, the noise query then reports off at every \<open>t\<close>, and a
  gate on that schedule writes zero frames for every buffer at every position, also where
  the noise volume is strictly positive.
\<close>

theorem converted_noise_is_silent:
  "\<exists>decoded. unmarshalConfig (marshalConfig frequencyChanges) = Inr decoded
     \<and> map PinkNoiseVolume decoded = map FrequencyChange.PinkNoiseVolume frequencyChanges
     \<and> (\<forall>c\<in>set decoded. \<not> PinkNoiseOn c)
     \<and> (\<forall>sorted. parsedFrom decoded sorted \<longrightarrow>
          (\<forall>c\<in>set (stretchTimes stretchFactor sorted). \<not> PinkNoiseOn c)
          \<and> (\<forall>t. \<exists>vol. createPinkNoiseFunc (stretchTimes stretchFactor sorted) t = Inr (False, vol))
          \<and> (\<forall>pnc samples. PinkNoiseControl.sr pnc \<noteq> 0
                \<and> PinkNoiseControl.volumeFunc pnc = createPinkNoiseFunc (stretchTimes stretchFactor sorted) \<longrightarrow>
                frames (PinkNoiseControl_Stream pnc samples) = Inr (replicate (length samples) (0, 0))))"
proof -
  let ?decoded = "map decodedFrom frequencyChanges"
  have vol: "map PinkNoiseVolume ?decoded = map FrequencyChange.PinkNoiseVolume frequencyChanges"
    by (simp add: decodedFrom_def)
  have off: "\<forall>c\<in>set ?decoded. \<not> PinkNoiseOn c"
    by (auto simp: decodedFrom_def)
  have loaded: "(\<forall>c\<in>set (stretchTimes stretchFactor sorted). \<not> PinkNoiseOn c)
          \<and> (\<forall>t. \<exists>vol. createPinkNoiseFunc (stretchTimes stretchFactor sorted) t = Inr (False, vol))
          \<and> (\<forall>pnc samples. PinkNoiseControl.sr pnc \<noteq> 0
                \<and> PinkNoiseControl.volumeFunc pnc = createPinkNoiseFunc (stretchTimes stretchFactor sorted) \<longrightarrow>
                frames (PinkNoiseControl_Stream pnc samples) = Inr (replicate (length samples) (0, 0)))"
    if p: "parsedFrom ?decoded sorted" for sorted
  proof -
    from p have "set sorted = set ?decoded"
      unfolding parsedFrom_def by (metis mset_eq_setD)
    with off have "\<forall>c\<in>set sorted. \<not> PinkNoiseOn c" by simp
    then have s: "\<forall>c\<in>set (stretchTimes stretchFactor sorted). \<not> PinkNoiseOn c"
      by (rule noise_off_stretch)
    from noise_off_everywhere [OF s] gate_silent [OF s] s show ?thesis by blast
  qed
  show ?thesis
    by (rule exI [of _ ?decoded]) (use vol off loaded unmarshalConfig_marshalConfig in blast)
qed

theorem converted_noise_is_silent_witness:
  "unmarshalConfig (marshalConfig convertedScenario)
     = Inr [bp 0 300 10 False 0.4 0.1, bp 10 150 6 False 0.2 0.15]
   \<and> parsedFrom [bp 0 300 10 False 0.4 0.1, bp 10 150 6 False 0.2 0.15]
        [bp 0 300 10 False 0.4 0.1, bp 10 150 6 False 0.2 0.15]
   \<and> 0 < PinkNoiseVolume ([bp 0 300 10 False 0.4 0.1, bp 10 150 6 False 0.2 0.15] ! 0)
   \<and> createPinkNoiseFunc (stretchTimes 1 [bp 0 300 10 False 0.4 0.1, bp 10 150 6 False 0.2 0.15]) 5
       = Inr (False, 0.4)
   \<and> PinkNoiseControl.sr (pinkNoiseControl
         (stretchTimes 1 [bp 0 300 10 False 0.4 0.1, bp 10 150 6 False 0.2 0.15]) (constantSource 1)) \<noteq> 0
   \<and> frames (PinkNoiseControl_Stream
        (pinkNoiseControl (stretchTimes 1 [bp 0 300 10 False 0.4 0.1, bp 10 150 6 False 0.2 0.15])
           (constantSource 1)) [(0, 0), (0, 0)]) = Inr [(0, 0), (0, 0)]"
proof -
  let ?d = "[bp 0 300 10 False 0.4 0.1, bp 10 150 6 False 0.2 0.15]"
  let ?g = "pinkNoiseControl (stretchTimes 1 ?d) (constantSource 1)"
  have u: "unmarshalConfig (marshalConfig convertedScenario) = Inr ?d"
    by (simp add: marshalConfig_def convertedScenario_def unmarshalConfigFrequencyChange_def
          marshalFrequencyChange_def floatField_def boolField_def bp_def)
  have p: "parsedFrom ?d ?d" by (simp add: parsedFrom_def nondecreasing_def)
  have v: "0 < PinkNoiseVolume (?d ! 0)" by simp
  have sr: "PinkNoiseControl.sr ?g \<noteq> 0" by (simp add: pinkNoiseControl_def)
  have vf: "PinkNoiseControl.volumeFunc ?g = createPinkNoiseFunc (stretchTimes 1 ?d)"
    by (simp add: pinkNoiseControl_def)
  from converted_noise_is_silent [of convertedScenario 1] obtain decoded where
    d: "unmarshalConfig (marshalConfig convertedScenario) = Inr decoded"
    and rest: "\<forall>sorted. parsedFrom decoded sorted \<longrightarrow>
          (\<forall>c\<in>set (stretchTimes 1 sorted). \<not> PinkNoiseOn c)
          \<and> (\<forall>t. \<exists>vol. createPinkNoiseFunc (stretchTimes 1 sorted) t = Inr (False, vol))
          \<and> (\<forall>pnc samples. PinkNoiseControl.sr pnc \<noteq> 0
                \<and> PinkNoiseControl.volumeFunc pnc = createPinkNoiseFunc (stretchTimes 1 sorted) \<longrightarrow>
                frames (PinkNoiseControl_Stream pnc samples) = Inr (replicate (length samples) (0, 0)))"
    by blast
  from d u have "decoded = ?d" by simp
  with rest p have
    q: "\<forall>t. \<exists>vol. createPinkNoiseFunc (stretchTimes 1 ?d) t = Inr (False, vol)"
    and g: "\<forall>pnc samples. PinkNoiseControl.sr pnc \<noteq> 0
                \<and> PinkNoiseControl.volumeFunc pnc = createPinkNoiseFunc (stretchTimes 1 ?d) \<longrightarrow>
                frames (PinkNoiseControl_Stream pnc samples) = Inr (replicate (length samples) (0, 0))"
    by blast+
  from g sr vf have f: "frames (PinkNoiseControl_Stream ?g [(0, 0), (0, 0)])
      = Inr (replicate (length [(0::real, 0::real), (0, 0)]) (0, 0))"
    by blast
  have n: "createPinkNoiseFunc (stretchTimes 1 ?d) 5 = Inr (False, 0.4)"
    by (simp add: stretchTimes_def createPinkNoiseFunc_def createPinkNoiseFunc_loop.simps index_def bp_def)
  from u p v n sr f show ?thesis by (simp add: numeral_2_eq_2)
qed

end
